theory Spec2Isabelle
  imports Complex_Main "HOL-Library.Char_ord" "HOL-Library.List_Lexorder"
    "HOL-Library.Product_Lexorder" "HOL-Library.Multiset"
begin

section \<open>Data model\<close>

text \<open>
  The notebook \<^verbatim>\<open>chemical-interpolation/create-training-sets.ipynb\<close> works on one pandas
  frame, \<^verbatim>\<open>oqmd_data\<close>. A frame is modelled as the list of its rows in frame order; the
  row label that pandas keeps in the frame's index is the field \<open>idx\<close>.

  A float64 cell is a rational, an infinity or NaN. Only comparisons are made on these
  values, and they follow IEEE 754: every comparison with NaN is false.
\<close>

datatype f64 = Fin rat | PosInf | NegInf | NaN

fun f64_lt :: "f64 \<Rightarrow> f64 \<Rightarrow> bool" where
  "f64_lt (Fin a) (Fin b) = (a < b)"
| "f64_lt (Fin a) PosInf = True"
| "f64_lt NegInf (Fin b) = True"
| "f64_lt NegInf PosInf = True"
| "f64_lt _ _ = False"

definition f64_gt :: "f64 \<Rightarrow> f64 \<Rightarrow> bool" where
  "f64_gt a b = f64_lt b a"

text \<open>
  A cell of the frame as \<^verbatim>\<open>read_csv\<close> returns it: a number, or the text of the cell when
  the column could not be read as numbers.
\<close>

datatype cell = Number f64 | Text string

record raw_row =
  comp_cell :: string
  delta_e_cell :: cell

text \<open>
  Of the seven columns only \<^verbatim>\<open>comp\<close> and \<^verbatim>\<open>delta_e\<close> are read again after cell 5. The
  other five columns are made numeric like \<^verbatim>\<open>delta_e\<close> and then only carried along; they
  are left out of the rows.
\<close>

record row =
  idx :: nat
  comp :: string
  delta_e :: f64

type_synonym composition = "(string \<times> rat) list"

record crow = row +
  comp_obj :: composition
  pretty_comp :: string

record entry = crow +
  nelems :: nat
  system :: string

datatype error = CompositionError

section \<open>Loading and cleaning (cells 3 to 15)\<close>

text \<open>
  Cell 5: \<^verbatim>\<open>pd.to_numeric(oqmd_data[col], errors='coerce')\<close>. The text-to-number parser is
  pandas' own and is a parameter: \<open>None\<close> is a cell that does not parse, which
  \<^verbatim>\<open>errors='coerce'\<close> turns into NaN.
\<close>

definition to_numeric :: "(string \<Rightarrow> f64 option) \<Rightarrow> cell \<Rightarrow> f64" where
  "to_numeric str_to_num c =
     (case c of
        Number v \<Rightarrow> v
      | Text s \<Rightarrow> (case str_to_num s of Some v \<Rightarrow> v | None \<Rightarrow> NaN))"

text \<open>Cells 3 and 5: the frame gets the default index 0, 1, 2, ... of \<^verbatim>\<open>read_csv\<close>.\<close>

definition read_frame :: "(string \<Rightarrow> f64 option) \<Rightarrow> raw_row list \<Rightarrow> row list" where
  "read_frame str_to_num raws =
     map (\<lambda>(i, r). \<lparr>idx = i, comp = comp_cell r,
                     delta_e = to_numeric str_to_num (delta_e_cell r)\<rparr>)
         (enumerate 0 raws)"

text \<open>Cell 7: \<^verbatim>\<open>oqmd_data.query('delta_e > -20 and delta_e < 5', inplace=True)\<close>.\<close>

definition in_range :: "f64 \<Rightarrow> bool" where
  "in_range v = (f64_gt v (Fin (- 20)) \<and> f64_lt v (Fin 5))"

definition query_delta_e :: "('a row_scheme) list \<Rightarrow> ('a row_scheme) list" where
  "query_delta_e df = filter (\<lambda>r. in_range (delta_e r)) df"

text \<open>
  Cells 9 and 10: \<^verbatim>\<open>Composition(x)\<close> and \<^verbatim>\<open>x.reduced_formula\<close> for every row. Both belong
  to the composition library and are parameters. A composition is the list of its
  (symbol, amount) pairs in the order in which the object enumerates its elements.
  \<^verbatim>\<open>Composition(x)\<close> raises on a string it cannot parse, and \<^verbatim>\<open>apply\<close> lets the exception
  through: the run stops.
\<close>

fun add_compositions ::
  "(string \<Rightarrow> composition option) \<Rightarrow> (composition \<Rightarrow> string) \<Rightarrow> row list \<Rightarrow> error + crow list"
where
  "add_compositions parse reduce [] = Inr []"
| "add_compositions parse reduce (r # rs) =
     (case parse (comp r) of
        None \<Rightarrow> Inl CompositionError
      | Some c \<Rightarrow>
          (case add_compositions parse reduce rs of
             Inl e \<Rightarrow> Inl e
           | Inr rs' \<Rightarrow>
               Inr (\<lparr>idx = idx r, comp = comp r, delta_e = delta_e r,
                     comp_obj = c, pretty_comp = reduce c\<rparr> # rs')))"

text \<open>
  Cell 12, first line: \<^verbatim>\<open>sort_values('delta_e', ascending=True)\<close>. Ascending order puts
  NaN last. pandas does not promise the order of rows with equal keys; the model keeps
  their frame order.
\<close>

fun sort_rank :: "f64 \<Rightarrow> nat \<times> rat" where
  "sort_rank NegInf = (0, 0)"
| "sort_rank (Fin a) = (1, a)"
| "sort_rank PosInf = (2, 0)"
| "sort_rank NaN = (3, 0)"

definition sort_values :: "('a row_scheme) list \<Rightarrow> ('a row_scheme) list" where
  "sort_values df = sort_key (\<lambda>r. sort_rank (delta_e r)) df"

text \<open>
  Cell 12, second line: \<^verbatim>\<open>drop_duplicates('pretty_comp', keep='first')\<close>: a row is dropped
  when an earlier row has the same \<^verbatim>\<open>pretty_comp\<close>.
\<close>

fun drop_dups :: "string list \<Rightarrow> ('a crow_scheme) list \<Rightarrow> ('a crow_scheme) list" where
  "drop_dups seen [] = []"
| "drop_dups seen (r # rs) =
     (if pretty_comp r \<in> set seen then drop_dups seen rs
      else r # drop_dups (pretty_comp r # seen) rs)"

definition drop_duplicates :: "('a crow_scheme) list \<Rightarrow> ('a crow_scheme) list" where
  "drop_duplicates df = drop_dups [] df"

text \<open>Python's \<^verbatim>\<open>sep.join(xs)\<close>.\<close>

fun join :: "string \<Rightarrow> string list \<Rightarrow> string" where
  "join sep [] = []"
| "join sep [x] = x"
| "join sep (x # y # ys) = x @ sep @ join sep (y # ys)"

text \<open>
  Cells 14 and 15: \<^verbatim>\<open>len(x)\<close> and \<^verbatim>\<open>"-".join([y.symbol for y in x])\<close> for the composition
  \<^verbatim>\<open>x\<close> of every row. The symbols are taken in the order the composition enumerates
  them; the cell does not sort.
\<close>

definition symbols :: "composition \<Rightarrow> string list" where
  "symbols c = map fst c"

definition system_label :: "composition \<Rightarrow> string" where
  "system_label c = join ''-'' (symbols c)"

definition add_system :: "crow \<Rightarrow> entry" where
  "add_system r =
     \<lparr>idx = idx r, comp = comp r, delta_e = delta_e r,
      comp_obj = comp_obj r, pretty_comp = pretty_comp r,
      nelems = length (comp_obj r), system = system_label (comp_obj r)\<rparr>"

text \<open>The frame \<^verbatim>\<open>oqmd_data\<close> after cell 15.\<close>

definition load_oqmd ::
  "(string \<Rightarrow> f64 option) \<Rightarrow> (string \<Rightarrow> composition option) \<Rightarrow> (composition \<Rightarrow> string)
     \<Rightarrow> raw_row list \<Rightarrow> error + entry list"
where
  "load_oqmd str_to_num parse reduce raws =
     (case add_compositions parse reduce (query_delta_e (read_frame str_to_num raws)) of
        Inl e \<Rightarrow> Inl e
      | Inr df \<Rightarrow> Inr (map add_system (drop_duplicates (sort_values df))))"

section \<open>Hold-out sets (cells 21 to 41)\<close>

text \<open>
  Cell 21, \<^verbatim>\<open>get_test_data\<close> for a whole system. \<^verbatim>\<open>product(*[elems,]*len(elems))\<close> is the
  product of \<^verbatim>\<open>len(elems)\<close> copies of \<^verbatim>\<open>elems\<close>; \<^verbatim>\<open>sorted(set(comb))\<close> is the sorted list of
  the distinct members of a tuple. The query keeps the rows whose \<^verbatim>\<open>system\<close> equals one
  of the collected labels.
\<close>

definition systems :: "string list \<Rightarrow> string set" where
  "systems elems =
     set (map (\<lambda>comb. join ''-'' (sort (remdups comb)))
              (product_lists (replicate (length elems) elems)))"

definition get_test_data_system :: "entry list \<Rightarrow> string list \<Rightarrow> entry list" where
  "get_test_data_system oqmd_data elems = filter (\<lambda>e. system e \<in> systems elems) oqmd_data"

text \<open>Python's \<^verbatim>\<open>x.split(c)\<close> for a separator of one character.\<close>

fun str_split :: "char \<Rightarrow> string \<Rightarrow> string list" where
  "str_split c [] = [[]]"
| "str_split c (x # xs) =
     (if x = c then [] # str_split c xs
      else (case str_split c xs of w # ws \<Rightarrow> (x # w) # ws | [] \<Rightarrow> [[x]]))"

text \<open>
  Cell 33, the second \<^verbatim>\<open>get_test_data\<close>:
  \<^verbatim>\<open>all([e in x.split("-") for e in elems])\<close> on the \<^verbatim>\<open>system\<close> of every row.
\<close>

definition get_test_data_pair :: "entry list \<Rightarrow> string list \<Rightarrow> entry list" where
  "get_test_data_pair oqmd_data elems =
     filter (\<lambda>e. list_all (\<lambda>x. x \<in> set (str_split CHR ''-'' (system e))) elems) oqmd_data"

text \<open>
  Cells 26 and 38: \<^verbatim>\<open>oqmd_data.loc[oqmd_data.index.difference(test_set.index)]\<close>.
  \<^verbatim>\<open>Index.difference\<close> returns the labels of the first index that are not in the second,
  each once and sorted. When the second index is empty it does not sort: it returns the
  labels of the first index in their own order, each once (the first of equal labels is
  kept). \<^verbatim>\<open>.loc\<close> with a list of labels returns the rows with these labels in the order
  of the list, and fails on a label the frame does not have.
\<close>

definition unique :: "nat list \<Rightarrow> nat list" where
  "unique a = rev (remdups (rev a))"

definition index_difference :: "nat list \<Rightarrow> nat list \<Rightarrow> nat list" where
  "index_difference a b =
     (if b = [] then unique a else sort (remdups (filter (\<lambda>i. i \<notin> set b) a)))"

definition loc :: "entry list \<Rightarrow> nat list \<Rightarrow> entry list option" where
  "loc df labels =
     (if \<forall>l \<in> set labels. l \<in> set (map idx df)
      then Some (concat (map (\<lambda>l. filter (\<lambda>e. idx e = l) df) labels))
      else None)"

definition train_set :: "entry list \<Rightarrow> entry list \<Rightarrow> entry list option" where
  "train_set oqmd_data test_set =
     loc oqmd_data (index_difference (map idx oqmd_data) (map idx test_set))"

text \<open>Cell 28, \<^verbatim>\<open>save_magpie\<close>: the two columns \<^verbatim>\<open>data[['comp','delta_e']]\<close> that are written.\<close>

definition magpie_columns :: "entry list \<Rightarrow> (string \<times> f64) list" where
  "magpie_columns data = map (\<lambda>e. (comp e, delta_e e)) data"

section \<open>The exported file\<close>









section \<open>Notions used to state the claims\<close>

text \<open>
  An element symbol, for what matters to the labels: a string that is not empty and has
  no hyphen in it. The symbols of a composition are element symbols of the periodic
  table, so they are of this kind.
\<close>

definition plain_symbol :: "string \<Rightarrow> bool" where
  "plain_symbol s \<longleftrightarrow> s \<noteq> [] \<and> CHR ''-'' \<notin> set s"

text \<open>
  The enumeration the spec proposes in place of the product of cell 21: the non-empty
  sub-lists of the target, each read as a set, sorted and joined.
\<close>

definition powerset_systems :: "string list \<Rightarrow> string set" where
  "powerset_systems elems =
     set (map (\<lambda>sub. join ''-'' (sort (remdups sub)))
              (filter (\<lambda>sub. sub \<noteq> []) (subseqs elems)))"

definition get_test_data_powerset :: "entry list \<Rightarrow> string list \<Rightarrow> entry list" where
  "get_test_data_powerset oqmd_data elems =
     filter (\<lambda>e. system e \<in> powerset_systems elems) oqmd_data"

section \<open>A small instance of the libraries\<close>

text \<open>
  The number parser of pandas and the composition class of pymatgen are not part of the
  notebook; the frame above takes them as parameters. The functions of this section
  are one simple choice for them, used to run the cells on example frames.
\<close>

text \<open>
  Modelled from the spec: the text-to-number parser of "malformed numeric cells become a
  missing-value marker". \<open>str_to_int\<close> reads an optional minus sign and decimal digits;
  every other cell is malformed.
\<close>

definition is_digit :: "char \<Rightarrow> bool" where
  "is_digit c \<longleftrightarrow> c \<in> set ''0123456789''"

definition is_upper :: "char \<Rightarrow> bool" where
  "is_upper c \<longleftrightarrow> c \<in> set ''ABCDEFGHIJKLMNOPQRSTUVWXYZ''"

definition is_lower :: "char \<Rightarrow> bool" where
  "is_lower c \<longleftrightarrow> c \<in> set ''abcdefghijklmnopqrstuvwxyz''"

definition digit_value :: "char \<Rightarrow> nat" where
  "digit_value c = length (takeWhile (\<lambda>d. d \<noteq> c) ''0123456789'')"

definition decimal :: "string \<Rightarrow> nat" where
  "decimal ds = foldl (\<lambda>n c. 10 * n + digit_value c) 0 ds"

definition str_to_int :: "string \<Rightarrow> f64 option" where
  "str_to_int s =
     (case s of
        [] \<Rightarrow> None
      | c # cs \<Rightarrow>
          if c = CHR ''-'' then
            (if cs \<noteq> [] \<and> list_all is_digit cs then Some (Fin (- of_nat (decimal cs))) else None)
          else if list_all is_digit s then Some (Fin (of_nat (decimal s)))
          else None)"

text \<open>
  Modelled from the spec: the composition parser, "element symbol optionally followed
  by an integer or decimal count; repeated symbols accumulate", for integer counts. A symbol is a capital letter
  followed by small letters. The composition enumerates its symbols in the order in
  which the formula first names them, as a Python dict filled while reading does.
  \<open>scan\<close> reads the formula from its end: it returns the small letters and the digits
  that still wait for their capital letter, and the (symbol, digits) pairs read so far.
\<close>

fun scan :: "string \<Rightarrow> (string \<times> string \<times> (string \<times> string) list) option" where
  "scan [] = Some ([], [], [])"
| "scan (c # cs) =
     (case scan cs of
        None \<Rightarrow> None
      | Some (lows, digs, toks) \<Rightarrow>
          if is_upper c then Some ([], [], (c # lows, digs) # toks)
          else if is_lower c then Some (c # lows, digs, toks)
          else if is_digit c \<and> lows = [] then Some ([], c # digs, toks)
          else None)"

fun add_amount :: "string \<Rightarrow> rat \<Rightarrow> composition \<Rightarrow> composition" where
  "add_amount s a [] = [(s, a)]"
| "add_amount s a ((t, b) # c) =
     (if s = t then (t, b + a) # c else (t, b) # add_amount s a c)"

definition parse_formula :: "string \<Rightarrow> composition option" where
  "parse_formula s =
     (case scan s of
        Some ([], [], toks) \<Rightarrow>
          Some (filter (\<lambda>(sym, a). a \<noteq> 0)
                 (foldl (\<lambda>c (sym, ds). add_amount sym (if ds = [] then 1 else of_nat (decimal ds)) c)
                        [] toks))
      | _ \<Rightarrow> None)"

text \<open>
  Modelled from the spec: the reduced formula, "divide all counts by their greatest
  common divisor", with the symbols in alphabetical order (the spec allows any stable
  canonical order) and a count of one left out.
\<close>

fun show_nat :: "nat \<Rightarrow> string" where
  "show_nat n =
     (if n < 10 then [''0123456789'' ! n]
      else show_nat (n div 10) @ [''0123456789'' ! (n mod 10)])"

declare show_nat.simps [simp del]


definition reduced_formula :: "composition \<Rightarrow> string" where
  "reduced_formula c =
     (let ns = map (\<lambda>(s, a). (s, nat \<lfloor>a\<rfloor>)) c;
          g = foldr gcd (map snd ns) 0
      in concat (map (\<lambda>(s, n). s @ (if n div g = 1 then [] else show_nat (n div g)))
                     (sort_key fst ns)))"

subsection \<open>Example frames\<close>

text \<open>An example frame as \<^verbatim>\<open>read_csv\<close> returns it, and what the cells make of it.\<close>

definition example_raws :: "raw_row list" where
  "example_raws =
     [\<lparr>comp_cell = ''Fe2O3'', delta_e_cell = Number (Fin (- 3))\<rparr>,
      \<lparr>comp_cell = ''Fe4O6'', delta_e_cell = Number (Fin (- 7 / 2))\<rparr>,
      \<lparr>comp_cell = ''Na2O1'', delta_e_cell = Text ''-1''\<rparr>,
      \<lparr>comp_cell = ''Cl1Na1'', delta_e_cell = Number (Fin (- 2))\<rparr>,
      \<lparr>comp_cell = ''Cl1K1'', delta_e_cell = Number (Fin (- 1 / 2))\<rparr>,
      \<lparr>comp_cell = ''O1Ti1'', delta_e_cell = Text ''n/a''\<rparr>,
      \<lparr>comp_cell = ''O2Ti1'', delta_e_cell = Number (Fin 7)\<rparr>,
      \<lparr>comp_cell = ''?'', delta_e_cell = Number PosInf\<rparr>]"

definition example_frame :: "entry list" where
  "example_frame =
     [\<lparr>idx = 1, comp = ''Fe4O6'', delta_e = Fin (- 7 / 2),
       comp_obj = [(''Fe'', 4), (''O'', 6)], pretty_comp = ''Fe2O3'',
       nelems = 2, system = ''Fe-O''\<rparr>,
      \<lparr>idx = 3, comp = ''Cl1Na1'', delta_e = Fin (- 2),
       comp_obj = [(''Cl'', 1), (''Na'', 1)], pretty_comp = ''ClNa'',
       nelems = 2, system = ''Cl-Na''\<rparr>,
      \<lparr>idx = 2, comp = ''Na2O1'', delta_e = Fin (- 1),
       comp_obj = [(''Na'', 2), (''O'', 1)], pretty_comp = ''Na2O'',
       nelems = 2, system = ''Na-O''\<rparr>,
      \<lparr>idx = 4, comp = ''Cl1K1'', delta_e = Fin (- 1 / 2),
       comp_obj = [(''Cl'', 1), (''K'', 1)], pretty_comp = ''ClK'',
       nelems = 2, system = ''Cl-K''\<rparr>]"

text \<open>The example frame after cell 10, before the rows are sorted.\<close>

definition example_rows :: "crow list" where
  "example_rows =
     [\<lparr>idx = 0, comp = ''Fe2O3'', delta_e = Fin (- 3),
       comp_obj = [(''Fe'', 2), (''O'', 3)], pretty_comp = ''Fe2O3''\<rparr>,
      \<lparr>idx = 1, comp = ''Fe4O6'', delta_e = Fin (- 7 / 2),
       comp_obj = [(''Fe'', 4), (''O'', 6)], pretty_comp = ''Fe2O3''\<rparr>,
      \<lparr>idx = 2, comp = ''Na2O1'', delta_e = Fin (- 1),
       comp_obj = [(''Na'', 2), (''O'', 1)], pretty_comp = ''Na2O''\<rparr>,
      \<lparr>idx = 3, comp = ''Cl1Na1'', delta_e = Fin (- 2),
       comp_obj = [(''Cl'', 1), (''Na'', 1)], pretty_comp = ''ClNa''\<rparr>,
      \<lparr>idx = 4, comp = ''Cl1K1'', delta_e = Fin (- 1 / 2),
       comp_obj = [(''Cl'', 1), (''K'', 1)], pretty_comp = ''ClK''\<rparr>]"

text \<open>
  A frame with a composition string that does not name its elements in alphabetical
  order, and what the cells make of it.
\<close>

definition unsorted_raws :: "raw_row list" where
  "unsorted_raws =
     [\<lparr>comp_cell = ''Fe2O3'', delta_e_cell = Number (Fin (- 3))\<rparr>,
      \<lparr>comp_cell = ''O4Fe3'', delta_e_cell = Number (Fin (- 2))\<rparr>,
      \<lparr>comp_cell = ''Cl1K1'', delta_e_cell = Number (Fin (- 1))\<rparr>]"

definition unsorted_frame :: "entry list" where
  "unsorted_frame =
     [\<lparr>idx = 0, comp = ''Fe2O3'', delta_e = Fin (- 3),
       comp_obj = [(''Fe'', 2), (''O'', 3)], pretty_comp = ''Fe2O3'',
       nelems = 2, system = ''Fe-O''\<rparr>,
      \<lparr>idx = 1, comp = ''O4Fe3'', delta_e = Fin (- 2),
       comp_obj = [(''O'', 4), (''Fe'', 3)], pretty_comp = ''Fe3O4'',
       nelems = 2, system = ''O-Fe''\<rparr>,
      \<lparr>idx = 2, comp = ''Cl1K1'', delta_e = Fin (- 1),
       comp_obj = [(''Cl'', 1), (''K'', 1)], pretty_comp = ''ClK'',
       nelems = 2, system = ''Cl-K''\<rparr>]"

text \<open>The three rows of the first scenario of the spec, and what the cells make of them.\<close>

definition scenario_raws :: "raw_row list" where
  "scenario_raws =
     [\<lparr>comp_cell = ''NaCl'', delta_e_cell = Number (Fin (- 1))\<rparr>,
      \<lparr>comp_cell = ''Na2O'', delta_e_cell = Number (Fin (- 2))\<rparr>,
      \<lparr>comp_cell = ''KCl'', delta_e_cell = Number (Fin (- 1 / 2))\<rparr>]"

definition scenario_frame :: "entry list" where
  "scenario_frame =
     [\<lparr>idx = 1, comp = ''Na2O'', delta_e = Fin (- 2),
       comp_obj = [(''Na'', 2), (''O'', 1)], pretty_comp = ''Na2O'',
       nelems = 2, system = ''Na-O''\<rparr>,
      \<lparr>idx = 0, comp = ''NaCl'', delta_e = Fin (- 1),
       comp_obj = [(''Na'', 1), (''Cl'', 1)], pretty_comp = ''ClNa'',
       nelems = 2, system = ''Na-Cl''\<rparr>,
      \<lparr>idx = 2, comp = ''KCl'', delta_e = Fin (- 1 / 2),
       comp_obj = [(''K'', 1), (''Cl'', 1)], pretty_comp = ''ClK'',
       nelems = 2, system = ''K-Cl''\<rparr>]"

section \<open>Rows of the cleaned frame\<close>

text \<open>A row that has the label of a row of the frame read, and its two fields.\<close>

definition from_raw :: "(string \<Rightarrow> f64 option) \<Rightarrow> raw_row list \<Rightarrow> 'a row_scheme \<Rightarrow> bool" where
  "from_raw p raws r \<longleftrightarrow>
     idx r < length raws \<and> comp r = comp_cell (raws ! idx r) \<and>
     delta_e r = to_numeric p (delta_e_cell (raws ! idx r))"

text \<open>What cells 9 and 10 add to a row whose composition parses.\<close>

definition attach :: "(string \<Rightarrow> composition option) \<Rightarrow> (composition \<Rightarrow> string) \<Rightarrow> row \<Rightarrow> crow" where
  "attach parse reduce r =
     \<lparr>idx = idx r, comp = comp r, delta_e = delta_e r,
      comp_obj = the (parse (comp r)), pretty_comp = reduce (the (parse (comp r)))\<rparr>"

text \<open>What every row of the cleaned frame satisfies.\<close>

definition cleaned_from ::
  "(string \<Rightarrow> f64 option) \<Rightarrow> (string \<Rightarrow> composition option) \<Rightarrow> (composition \<Rightarrow> string)
     \<Rightarrow> raw_row list \<Rightarrow> entry \<Rightarrow> bool"
where
  "cleaned_from p parse reduce raws e \<longleftrightarrow>
     from_raw p raws e \<and> in_range (delta_e e) \<and>
     parse (comp e) = Some (comp_obj e) \<and> pretty_comp e = reduce (comp_obj e) \<and>
     nelems e = length (comp_obj e) \<and> system e = system_label (comp_obj e)"

section \<open>The cleaned frame\<close>

subsection \<open>Reading\<close>

lemma in_range_Fin: "in_range v \<longleftrightarrow> (\<exists>a. v = Fin a \<and> - 20 < a \<and> a < 5)"
  by (cases v) (simp_all add: in_range_def f64_gt_def)

lemma read_frame_length: "length (read_frame p raws) = length raws"
  by (simp add: read_frame_def)

lemma read_frame_nth:
  "i < length raws \<Longrightarrow>
   read_frame p raws ! i =
     \<lparr>idx = i, comp = comp_cell (raws ! i), delta_e = to_numeric p (delta_e_cell (raws ! i))\<rparr>"
  by (simp add: read_frame_def nth_enumerate_eq)

lemma read_frame_idx: "map idx (read_frame p raws) = [0..<length raws]"
  by (rule nth_equalityI) (simp_all add: read_frame_length read_frame_nth)

lemma read_frame_from_raw: "r \<in> set (read_frame p raws) \<Longrightarrow> from_raw p raws r"
  by (auto simp: in_set_conv_nth read_frame_length read_frame_nth from_raw_def)

subsection \<open>Compositions\<close>

lemma error_unique: "(e :: error) = e'"
  by (cases e, cases e') simp

lemma add_compositions_Inl:
  "add_compositions parse reduce rs = Inl e \<longleftrightarrow> (\<exists>r \<in> set rs. parse (comp r) = None)"
proof (induction rs)
  case Nil
  show ?case by simp
next
  case (Cons r rs)
  show ?case
  proof (cases "parse (comp r)")
    case None
    then show ?thesis by (simp add: error_unique [of CompositionError e])
  next
    case (Some c)
    show ?thesis
    proof (cases "add_compositions parse reduce rs")
      case (Inl e')
      with Cons Some show ?thesis by (simp add: error_unique [of e' e])
    next
      case (Inr cs)
      with Cons Some show ?thesis by simp
    qed
  qed
qed

lemma add_compositions_Inr:
  "add_compositions parse reduce rs = Inr cs \<longleftrightarrow>
     (\<forall>r \<in> set rs. parse (comp r) \<noteq> None) \<and> cs = map (attach parse reduce) rs"
proof (induction rs arbitrary: cs)
  case Nil
  show ?case by auto
next
  case (Cons r rs)
  show ?case
  proof (cases "parse (comp r)")
    case None
    then show ?thesis by auto
  next
    case (Some c)
    show ?thesis
    proof (cases "add_compositions parse reduce rs")
      case (Inl e)
      then have "\<exists>r \<in> set rs. parse (comp r) = None"
        by (simp add: add_compositions_Inl)
      with Some Inl show ?thesis by auto
    next
      case (Inr cs')
      with Cons [of cs'] Some show ?thesis by (auto simp: attach_def)
    qed
  qed
qed

subsection \<open>Sorting and dropping duplicates\<close>

lemma sort_values_sorted: "sorted (map (\<lambda>r. sort_rank (delta_e r)) (sort_values df))"
  by (simp add: sort_values_def)

lemma sort_values_mset: "mset (sort_values df) = mset df"
  by (simp add: sort_values_def)

lemma distinct_map_sort_key: "distinct (map f (sort_key k xs)) = distinct (map f xs)"
  by (simp add: distinct_map)

lemma drop_dups_subset: "set (drop_dups seen rs) \<subseteq> set rs"
  by (induction rs arbitrary: seen) auto

lemma drop_dups_unseen: "r \<in> set (drop_dups seen rs) \<Longrightarrow> pretty_comp r \<notin> set seen"
proof (induction rs arbitrary: seen)
  case Nil
  then show ?case by simp
next
  case (Cons a rs)
  show ?case
  proof (cases "pretty_comp a \<in> set seen")
    case True
    with Cons show ?thesis by simp
  next
    case False
    with Cons.prems have "r = a \<or> r \<in> set (drop_dups (pretty_comp a # seen) rs)" by simp
    then show ?thesis
    proof
      assume "r = a"
      with False show ?thesis by simp
    next
      assume "r \<in> set (drop_dups (pretty_comp a # seen) rs)"
      from Cons.IH [OF this] show ?thesis by simp
    qed
  qed
qed

lemma drop_dups_distinct: "distinct (map pretty_comp (drop_dups seen rs))"
  by (induction rs arbitrary: seen) (auto dest: drop_dups_unseen)

lemma drop_dups_distinct_map:
  "distinct (map f rs) \<Longrightarrow> distinct (map f (drop_dups seen rs))"
proof (induction rs arbitrary: seen)
  case Nil
  then show ?case by simp
next
  case (Cons r rs)
  have "f r \<notin> f ` set (drop_dups seen' rs)" for seen'
    using Cons.prems drop_dups_subset [of seen' rs] by auto
  with Cons show ?case by simp
qed

lemma drop_dups_complete:
  "r \<in> set rs \<Longrightarrow> pretty_comp r \<notin> set seen \<Longrightarrow>
   pretty_comp r \<in> pretty_comp ` set (drop_dups seen rs)"
proof (induction rs arbitrary: seen)
  case Nil
  then show ?case by simp
next
  case (Cons a rs)
  show ?case
  proof (cases "pretty_comp r = pretty_comp a")
    case True
    with Cons.prems show ?thesis by simp
  next
    case False
    with Cons.prems have "r \<in> set rs" by auto
    from Cons.IH [OF this, of seen] Cons.IH [OF this, of "pretty_comp a # seen"]
      Cons.prems(2) False
    show ?thesis by auto
  qed
qed

lemma drop_dups_least:
  assumes "sorted (map k rs)" and "e \<in> set (drop_dups seen rs)"
    and "e' \<in> set rs" and "pretty_comp e' = pretty_comp e"
  shows "k e \<le> k e'"
  using assms
proof (induction rs arbitrary: seen)
  case Nil
  then show ?case by simp
next
  case (Cons r rs)
  from Cons.prems(1) have first: "\<forall>x \<in> set rs. k r \<le> k x" and rest: "sorted (map k rs)"
    by simp_all
  show ?case
  proof (cases "pretty_comp r \<in> set seen")
    case True
    with Cons.prems(2) have e: "e \<in> set (drop_dups seen rs)" by simp
    then have "pretty_comp e \<notin> set seen" by (rule drop_dups_unseen)
    with True Cons.prems(4) have "e' \<noteq> r" by auto
    with Cons.prems(3) have "e' \<in> set rs" by simp
    from Cons.IH [OF rest e this Cons.prems(4)] show ?thesis .
  next
    case False
    with Cons.prems(2) have "e = r \<or> e \<in> set (drop_dups (pretty_comp r # seen) rs)"
      by simp
    then show ?thesis
    proof
      assume "e = r"
      with first Cons.prems(3) show ?thesis by auto
    next
      assume e: "e \<in> set (drop_dups (pretty_comp r # seen) rs)"
      then have "pretty_comp e \<notin> set (pretty_comp r # seen)" by (rule drop_dups_unseen)
      with Cons.prems(4) have "e' \<noteq> r" by auto
      with Cons.prems(3) have "e' \<in> set rs" by simp
      from Cons.IH [OF rest e this Cons.prems(4)] show ?thesis .
    qed
  qed
qed

subsection \<open>Every row of the cleaned frame\<close>

lemma add_system_fields [simp]:
  "idx (add_system c) = idx c" "comp (add_system c) = comp c"
  "delta_e (add_system c) = delta_e c" "comp_obj (add_system c) = comp_obj c"
  "pretty_comp (add_system c) = pretty_comp c"
  "nelems (add_system c) = length (comp_obj c)"
  "system (add_system c) = system_label (comp_obj c)"
  by (simp_all add: add_system_def)

lemma attach_fields [simp]:
  "idx (attach parse reduce r) = idx r" "comp (attach parse reduce r) = comp r"
  "delta_e (attach parse reduce r) = delta_e r"
  "comp_obj (attach parse reduce r) = the (parse (comp r))"
  "pretty_comp (attach parse reduce r) = reduce (the (parse (comp r)))"
  by (simp_all add: attach_def)

lemma load_oqmd_Inr:
  "load_oqmd p parse reduce raws = Inr df \<longleftrightarrow>
     (\<forall>r \<in> set (query_delta_e (read_frame p raws)). parse (comp r) \<noteq> None) \<and>
     df = map add_system (drop_duplicates (sort_values
            (map (attach parse reduce) (query_delta_e (read_frame p raws)))))"
proof (cases "add_compositions parse reduce (query_delta_e (read_frame p raws))")
  case (Inl e)
  then show ?thesis
    using add_compositions_Inl [of parse reduce "query_delta_e (read_frame p raws)" e]
    by (auto simp: load_oqmd_def)
next
  case (Inr cs)
  then show ?thesis
    using add_compositions_Inr [of parse reduce "query_delta_e (read_frame p raws)" cs]
    by (auto simp: load_oqmd_def)
qed

lemma load_oqmd_Inl:
  "load_oqmd p parse reduce raws = Inl err \<longleftrightarrow>
     (\<exists>r \<in> set (query_delta_e (read_frame p raws)). parse (comp r) = None)"
proof (cases "add_compositions parse reduce (query_delta_e (read_frame p raws))")
  case (Inl e)
  then show ?thesis
    using add_compositions_Inl [of parse reduce "query_delta_e (read_frame p raws)" e]
    by (simp add: load_oqmd_def error_unique [of e err])
next
  case (Inr cs)
  then show ?thesis
    using add_compositions_Inr [of parse reduce "query_delta_e (read_frame p raws)" cs]
    by (auto simp: load_oqmd_def)
qed

lemma load_oqmd_rows:
  assumes "load_oqmd p parse reduce raws = Inr df" and "e \<in> set df"
  shows "cleaned_from p parse reduce raws e"
proof -
  let ?rs = "query_delta_e (read_frame p raws)"
  from assms(1) have ok: "\<forall>r \<in> set ?rs. parse (comp r) \<noteq> None"
    and df: "df = map add_system (drop_duplicates (sort_values (map (attach parse reduce) ?rs)))"
    by (simp_all add: load_oqmd_Inr)
  from assms(2) df obtain c where c: "e = add_system c"
    and "c \<in> set (drop_duplicates (sort_values (map (attach parse reduce) ?rs)))"
    by auto
  then have "c \<in> set (map (attach parse reduce) ?rs)"
    using drop_dups_subset [of "[]" "sort_values (map (attach parse reduce) ?rs)"]
    by (auto simp: drop_duplicates_def sort_values_def)
  then obtain r where r: "r \<in> set ?rs" and cr: "c = attach parse reduce r"
    by auto
  from r have raw: "from_raw p raws r" and rng: "in_range (delta_e r)"
    by (auto simp: query_delta_e_def dest: read_frame_from_raw)
  from ok r obtain k where k: "parse (comp r) = Some k" by auto
  from raw have "from_raw p raws e"
    by (simp add: from_raw_def c cr)
  with rng k show ?thesis
    by (simp add: cleaned_from_def c cr)
qed

lemma load_oqmd_system:
  "load_oqmd p parse reduce raws = Inr df \<Longrightarrow> e \<in> set df \<Longrightarrow>
   system e = join ''-'' (symbols (comp_obj e))"
  using load_oqmd_rows [of p parse reduce raws df e]
  by (simp add: cleaned_from_def system_label_def)

lemma load_oqmd_distinct_idx:
  assumes "load_oqmd p parse reduce raws = Inr df"
  shows "distinct (map idx df)"
proof -
  let ?rs = "query_delta_e (read_frame p raws)"
  let ?cs = "map (attach parse reduce) ?rs"
  from assms have df: "df = map add_system (drop_duplicates (sort_values ?cs))"
    by (simp add: load_oqmd_Inr)
  have "distinct (map idx (read_frame p raws))"
    by (simp add: read_frame_idx)
  then have "distinct (map idx ?rs)"
    by (simp add: query_delta_e_def distinct_map_filter)
  then have "distinct (map idx ?cs)"
    by (simp add: o_def)
  then have "distinct (map idx (sort_values ?cs))"
    by (simp add: sort_values_def distinct_map_sort_key)
  then have "distinct (map idx (drop_duplicates (sort_values ?cs)))"
    unfolding drop_duplicates_def by (rule drop_dups_distinct_map)
  then show ?thesis
    by (simp add: df o_def)
qed

lemma load_oqmd_distinct_pretty:
  assumes "load_oqmd p parse reduce raws = Inr df"
  shows "distinct (map pretty_comp df)"
proof -
  from assms have "map pretty_comp df =
      map pretty_comp (drop_duplicates (sort_values
        (map (attach parse reduce) (query_delta_e (read_frame p raws)))))"
    by (simp add: load_oqmd_Inr o_def)
  then show ?thesis
    by (simp add: drop_duplicates_def drop_dups_distinct)
qed

lemma load_oqmd_lowest:
  assumes load: "load_oqmd p parse reduce raws = Inr oqmd_data"
    and i: "i < length raws" and rng: "in_range (to_numeric p (delta_e_cell (raws ! i)))"
  shows "\<exists>e \<in> set oqmd_data.
           pretty_comp e = reduce (the (parse (comp_cell (raws ! i)))) \<and>
           sort_rank (delta_e e) \<le> sort_rank (to_numeric p (delta_e_cell (raws ! i)))"
proof -
  let ?rs = "query_delta_e (read_frame p raws)"
  let ?cs = "map (attach parse reduce) ?rs"
  let ?r = "read_frame p raws ! i"
  let ?c = "attach parse reduce ?r"
  from load have df: "oqmd_data = map add_system (drop_duplicates (sort_values ?cs))"
    by (simp add: load_oqmd_Inr)
  from i have r: "?r = \<lparr>idx = i, comp = comp_cell (raws ! i),
      delta_e = to_numeric p (delta_e_cell (raws ! i))\<rparr>"
    by (rule read_frame_nth)
  from i have "?r \<in> set (read_frame p raws)"
    by (simp add: read_frame_length)
  with rng r have "?r \<in> set ?rs"
    by (simp add: query_delta_e_def)
  then have c: "?c \<in> set (sort_values ?cs)"
    by (simp add: sort_values_def)
  then have "pretty_comp ?c \<in> pretty_comp ` set (drop_dups [] (sort_values ?cs))"
    by (intro drop_dups_complete) simp_all
  then obtain k where k: "k \<in> set (drop_duplicates (sort_values ?cs))"
    and same: "pretty_comp ?c = pretty_comp k"
    by (auto simp: drop_duplicates_def)
  from k have "k \<in> set (drop_dups [] (sort_values ?cs))"
    by (simp add: drop_duplicates_def)
  with sort_values_sorted [of ?cs] have "sort_rank (delta_e k) \<le> sort_rank (delta_e ?c)"
    using c same by (rule drop_dups_least)
  moreover from k df have "add_system k \<in> set oqmd_data" by simp
  ultimately show ?thesis
    using same r by (intro bexI [of _ "add_system k"]) simp_all
qed

section \<open>Train sets\<close>

lemma loc_subset: "loc df labels = Some t \<Longrightarrow> set t \<subseteq> set df"
  by (auto simp: loc_def split: if_splits)

lemma map_idx_filter_eq:
  "distinct (map idx df) \<Longrightarrow> l \<in> idx ` set df \<Longrightarrow> map idx (filter (\<lambda>e. idx e = l) df) = [l]"
proof (induction df)
  case Nil
  then show ?case by simp
next
  case (Cons a rs)
  show ?case
  proof (cases "idx a = l")
    case True
    from Cons.prems(1) have "idx a \<notin> idx ` set rs" by simp
    then have "\<forall>e \<in> set rs. idx e \<noteq> idx a" by (metis image_eqI)
    with True have "filter (\<lambda>e. idx e = l) rs = []"
      by (simp add: filter_empty_conv)
    with True show ?thesis by simp
  next
    case False
    with Cons show ?thesis by auto
  qed
qed

lemma loc_rows_idx:
  "distinct (map idx df) \<Longrightarrow> set labels \<subseteq> idx ` set df \<Longrightarrow>
   map idx (concat (map (\<lambda>l. filter (\<lambda>e. idx e = l) df) labels)) = labels"
  by (induction labels) (simp_all add: map_idx_filter_eq)

lemma unique_distinct: "distinct a \<Longrightarrow> unique a = a"
  by (simp add: unique_def distinct_remdups_id)

lemma index_difference_set: "set (index_difference a b) = set a - set b"
  by (auto simp: index_difference_def unique_def)

lemma index_difference_sorted:
  "b \<noteq> [] \<Longrightarrow> sorted (index_difference a b)" "b \<noteq> [] \<Longrightarrow> distinct (index_difference a b)"
  by (simp_all add: index_difference_def)

lemma loc_whole:
  assumes "distinct (map idx df)"
  shows "concat (map (\<lambda>l. filter (\<lambda>e. idx e = l) df) (map idx df)) = df"
proof -
  let ?t = "concat (map (\<lambda>l. filter (\<lambda>e. idx e = l) df) (map idx df))"
  have "map idx ?t = map idx df"
    using assms by (intro loc_rows_idx) simp_all
  moreover have "set ?t \<union> set df \<subseteq> set df" by auto
  moreover have "inj_on idx (set df)"
    using assms by (simp add: distinct_map)
  ultimately show ?thesis
    by (meson inj_on_subset map_inj_on)
qed

lemma train_set_of_empty_test:
  assumes "distinct (map idx df)"
  shows "train_set df [] = Some df"
proof -
  have "index_difference (map idx df) (map idx []) = map idx df"
    using assms by (simp add: index_difference_def unique_distinct)
  then show ?thesis
    using loc_whole [OF assms] by (simp add: train_set_def loc_def)
qed

lemma train_set_sorted:
  assumes "distinct (map idx df)" and "test \<noteq> []"
  shows "train_set df test = Some (filter (\<lambda>e. idx e \<notin> set (map idx test)) (sort_key idx df))"
proof -
  let ?labels = "index_difference (map idx df) (map idx test)"
  let ?t = "concat (map (\<lambda>l. filter (\<lambda>e. idx e = l) df) ?labels)"
  let ?r = "filter (\<lambda>e. idx e \<notin> set (map idx test)) (sort_key idx df)"
  from assms(2) have ne: "map idx test \<noteq> []" by simp
  have sub: "set ?labels \<subseteq> idx ` set df"
    by (auto simp: index_difference_set)
  then have loc: "train_set df test = Some ?t"
    by (auto simp: train_set_def loc_def)
  have idx_t: "map idx ?t = ?labels"
    using assms(1) sub by (rule loc_rows_idx)
  have "set ?t = {e \<in> set df. idx e \<in> set ?labels}"
    by auto
  also have "\<dots> = {e \<in> set df. idx e \<notin> idx ` set test}"
    unfolding index_difference_set by auto
  also have "\<dots> = set ?r"
    by simp
  finally have set_t: "set ?t = set ?r" .
  have inj: "inj_on idx (set df)"
    using assms(1) by (simp add: distinct_map)
  have "set ?t \<union> set ?r \<subseteq> set df" by auto
  with inj have inj': "inj_on idx (set ?t \<union> set ?r)"
    by (rule inj_on_subset)
  have sorted_r: "sorted (map idx ?r)"
    by (simp add: sorted_filter)
  have distinct_r: "distinct (map idx ?r)"
    using assms(1) by (simp add: distinct_map_filter distinct_map_sort_key)
  have "?t = ?r"
    using inj' _ _ sorted_r distinct_r set_t
    by (rule map_sorted_distinct_set_unique)
      (simp_all only: idx_t index_difference_sorted [OF ne])
  with loc show ?thesis by simp
qed

lemma train_set_eq:
  assumes "distinct (map idx df)"
  shows "train_set df test =
           Some (if test = [] then df
                 else filter (\<lambda>e. idx e \<notin> set (map idx test)) (sort_key idx df))"
proof (cases "test = []")
  case True
  with train_set_of_empty_test [OF assms] show ?thesis by simp
next
  case False
  with train_set_sorted [OF assms False] show ?thesis by simp
qed

lemma train_test_split:
  assumes d: "distinct (map idx df)" and t: "test = filter P df"
  shows "\<exists>train. train_set df test = Some train \<and>
           train = (if test = [] then df
                    else filter (\<lambda>e. idx e \<notin> set (map idx test)) (sort_key idx df)) \<and>
           mset train = mset (filter (\<lambda>e. idx e \<notin> set (map idx test)) df) \<and>
           set train \<inter> set test = {} \<and> set train \<union> set test = set df \<and>
           mset train + mset test = mset df"
proof -
  let ?keep = "\<lambda>e. idx e \<notin> set (map idx test)"
  let ?train = "if test = [] then df else filter ?keep (sort_key idx df)"
  from d have inj: "inj_on idx (set df)" and dd: "distinct df"
    by (simp_all add: distinct_map)
  have sub: "set test \<subseteq> set df" by (simp add: t)
  have "filter ?keep df = df" if "test = []"
    using that by simp
  then have perm: "mset ?train = mset (filter ?keep df)"
    by simp
  then have set_train: "set ?train = set (filter ?keep df)"
    by (rule mset_eq_setD)
  from perm dd have dist_train: "distinct ?train"
    by (metis distinct_filter mset_eq_imp_distinct_iff)
  from set_train have disj: "set ?train \<inter> set test = {}" by auto
  have "e \<in> set ?train \<or> e \<in> set test" if "e \<in> set df" for e
  proof (cases "idx e \<in> set (map idx test)")
    case True
    then obtain e' where "e' \<in> set test" "idx e' = idx e" by auto
    with sub inj that have "e' = e" by (auto dest: inj_onD)
    with \<open>e' \<in> set test\<close> show ?thesis by simp
  next
    case False
    with that set_train show ?thesis by simp
  qed
  with sub set_train have un: "set ?train \<union> set test = set df" by auto
  have "distinct test"
    using dd by (simp add: t)
  with disj dist_train have app: "distinct (?train @ test)"
    by (simp only: distinct_append simp_thms)
  have "set (?train @ test) = set df"
    using un by (simp only: set_append)
  with set_eq_iff_mset_eq_distinct [OF app dd] have "mset (?train @ test) = mset df"
    by blast
  then have "mset ?train + mset test = mset df"
    by (simp only: mset_append)
  with train_set_eq [OF d, of test] perm disj un show ?thesis by blast
qed

section \<open>Labels\<close>

subsection \<open>Joining and splitting\<close>

lemma str_split_plain: "c \<notin> set x \<Longrightarrow> str_split c x = [x]"
  by (induction x) auto

lemma str_split_append: "c \<notin> set x \<Longrightarrow> str_split c (x @ c # rest) = x # str_split c rest"
  by (induction x) auto

lemma str_split_join:
  "xs \<noteq> [] \<Longrightarrow> \<forall>x \<in> set xs. c \<notin> set x \<Longrightarrow> str_split c (join [c] xs) = xs"
proof (induction xs)
  case Nil
  then show ?case by simp
next
  case step: (Cons x xs)
  show ?case
  proof (cases xs)
    case Nil
    with step.prems show ?thesis by (simp add: str_split_plain)
  next
    case (Cons y ys)
    with step.prems step.IH show ?thesis by (simp add: str_split_append)
  qed
qed

lemma join_not_Nil: "xs \<noteq> [] \<Longrightarrow> hd xs \<noteq> [] \<Longrightarrow> join sep xs \<noteq> []"
proof (cases xs)
  case Nil
  then show "xs \<noteq> [] \<Longrightarrow> ?thesis" by simp
next
  case (Cons x ys)
  then show "hd xs \<noteq> [] \<Longrightarrow> ?thesis" by (cases ys) simp_all
qed

lemma join_Nil_plain:
  assumes "\<forall>y \<in> set ys. y \<noteq> []" and "join sep ys = []"
  shows "ys = []"
proof (rule ccontr)
  assume "ys \<noteq> []"
  moreover from this assms(1) have "hd ys \<noteq> []" by simp
  ultimately have "join sep ys \<noteq> []" by (rule join_not_Nil)
  with assms(2) show False by simp
qed

lemma join_plain_inject:
  assumes "list_all plain_symbol xs" and "list_all plain_symbol ys"
    and "join ''-'' xs = join ''-'' ys"
  shows "xs = ys"
proof -
  from assms(1,2) have ne: "\<forall>x \<in> set xs. x \<noteq> []" "\<forall>y \<in> set ys. y \<noteq> []"
    and hy: "\<forall>x \<in> set xs. CHR ''-'' \<notin> set x" "\<forall>y \<in> set ys. CHR ''-'' \<notin> set y"
    by (simp_all add: list_all_iff plain_symbol_def)
  show ?thesis
  proof (cases "xs = []")
    case True
    with assms(3) have "join ''-'' ys = []" by simp
    with ne(2) have "ys = []" by (rule join_Nil_plain)
    with True show ?thesis by simp
  next
    case False
    have "ys \<noteq> []"
    proof
      assume "ys = []"
      with assms(3) have "join ''-'' xs = []" by simp
      with ne(1) have "xs = []" by (rule join_Nil_plain)
      with False show False by simp
    qed
    then have "str_split CHR ''-'' (join ''-'' ys) = ys"
      using hy(2) by (rule str_split_join)
    moreover have "str_split CHR ''-'' (join ''-'' xs) = xs"
      using False hy(1) by (rule str_split_join)
    ultimately show ?thesis
      unfolding assms(3) by (metis)
  qed
qed

subsection \<open>The labels of a target\<close>

lemma product_replicate:
  "set (product_lists (replicate n xs)) = {l. length l = n \<and> set l \<subseteq> set xs}"
proof (induction n)
  case 0
  show ?case by auto
next
  case (Suc n)
  show ?case
  proof (rule set_eqI)
    fix l
    show "l \<in> set (product_lists (replicate (Suc n) xs)) \<longleftrightarrow>
        l \<in> {l. length l = Suc n \<and> set l \<subseteq> set xs}"
      using Suc by (cases l) auto
  qed
qed

lemma tuples_cover:
  assumes "elems \<noteq> []"
  shows "set ` {l. length l = length elems \<and> set l \<subseteq> set elems} =
         {S. S \<noteq> {} \<and> S \<subseteq> set elems}"
proof (intro set_eqI iffI)
  fix S
  assume "S \<in> set ` {l. length l = length elems \<and> set l \<subseteq> set elems}"
  then obtain l where "S = set l" "length l = length elems" "set l \<subseteq> set elems" by auto
  with assms show "S \<in> {S. S \<noteq> {} \<and> S \<subseteq> set elems}" by auto
next
  fix S :: "'a set"
  assume "S \<in> {S. S \<noteq> {} \<and> S \<subseteq> set elems}"
  then have ne: "S \<noteq> {}" and sub: "S \<subseteq> set elems" by auto
  then have "finite S" by (auto intro: finite_subset)
  then obtain l where l: "set l = S" "distinct l"
    using finite_distinct_list by blast
  with ne have "l \<noteq> []" by auto
  from l have "length l = card S" by (auto simp: distinct_card)
  also from sub have "\<dots> \<le> card (set elems)" by (simp add: card_mono)
  also have "\<dots> \<le> length elems" by (rule card_length)
  finally have len: "length l \<le> length elems" .
  let ?comb = "l @ replicate (length elems - length l) (hd l)"
  from len have "length ?comb = length elems" by simp
  moreover from \<open>l \<noteq> []\<close> l(1) have "set ?comb = S" by auto
  ultimately show "S \<in> set ` {l. length l = length elems \<and> set l \<subseteq> set elems}"
    using sub by (intro image_eqI [of _ _ ?comb]) auto
qed

lemma systems_subsets:
  assumes "elems \<noteq> []"
  shows "systems elems = (\<lambda>S. join ''-'' (sorted_list_of_set S)) ` {S. S \<noteq> {} \<and> S \<subseteq> set elems}"
proof -
  have "systems elems =
      (\<lambda>l. join ''-'' (sorted_list_of_set (set l))) ` {l. length l = length elems \<and> set l \<subseteq> set elems}"
    by (simp add: systems_def product_replicate sorted_list_of_set_sort_remdups)
  also have "\<dots> = (\<lambda>S. join ''-'' (sorted_list_of_set S)) `
      (set ` {l. length l = length elems \<and> set l \<subseteq> set elems})"
    by (simp only: image_image)
  also have "\<dots> = (\<lambda>S. join ''-'' (sorted_list_of_set S)) ` {S. S \<noteq> {} \<and> S \<subseteq> set elems}"
    by (simp only: tuples_cover [OF assms])
  finally show ?thesis .
qed

lemma powerset_systems_subsets:
  "powerset_systems elems =
     (\<lambda>S. join ''-'' (sorted_list_of_set S)) ` {S. S \<noteq> {} \<and> S \<subseteq> set elems}"
proof -
  have "set ` {sub \<in> set (subseqs elems). sub \<noteq> []} = {S. S \<noteq> {} \<and> S \<subseteq> set elems}"
  proof (intro set_eqI iffI)
    fix S
    assume "S \<in> set ` {sub \<in> set (subseqs elems). sub \<noteq> []}"
    then obtain sub where "S = set sub" "sub \<in> set (subseqs elems)" "sub \<noteq> []" by auto
    moreover from this have "set sub \<in> Pow (set elems)"
      using subseqs_powset [of elems] by blast
    ultimately show "S \<in> {S. S \<noteq> {} \<and> S \<subseteq> set elems}" by auto
  next
    fix S
    assume "S \<in> {S. S \<noteq> {} \<and> S \<subseteq> set elems}"
    then have "S \<noteq> {}" "S \<in> Pow (set elems)" by auto
    then obtain sub where "sub \<in> set (subseqs elems)" "set sub = S"
      using subseqs_powset [of elems] by (metis imageE)
    with \<open>S \<noteq> {}\<close> show "S \<in> set ` {sub \<in> set (subseqs elems). sub \<noteq> []}"
      by (intro image_eqI [of _ _ sub]) auto
  qed
  moreover have "powerset_systems elems =
      (\<lambda>S. join ''-'' (sorted_list_of_set S)) ` (set ` {sub \<in> set (subseqs elems). sub \<noteq> []})"
    unfolding image_image
    by (simp add: powerset_systems_def sorted_list_of_set_sort_remdups)
  ultimately show ?thesis by simp
qed

lemma systems_not_empty: "elems \<noteq> [] \<Longrightarrow> systems elems \<noteq> {}"
  unfolding systems_subsets
proof -
  assume "elems \<noteq> []"
  then have "set elems \<in> {S. S \<noteq> {} \<and> S \<subseteq> set elems}" by simp
  then show "(\<lambda>S. join ''-'' (sorted_list_of_set S)) ` {S. S \<noteq> {} \<and> S \<subseteq> set elems} \<noteq> {}"
    by blast
qed

lemma subset_label_inject:
  assumes "list_all plain_symbol syms" and "list_all plain_symbol elems"
    and "S \<subseteq> set elems" and "join ''-'' syms = join ''-'' (sorted_list_of_set S)"
  shows "syms = sorted_list_of_set S"
proof -
  from assms(3) have fin: "finite S" by (auto intro: finite_subset)
  with assms(2,3) have "list_all plain_symbol (sorted_list_of_set S)"
    by (auto simp: list_all_iff)
  with assms(1) show ?thesis using assms(4) by (rule join_plain_inject)
qed

lemma system_hit_iff:
  assumes "list_all plain_symbol syms" and "list_all plain_symbol elems" and "elems \<noteq> []"
  shows "join ''-'' syms \<in> systems elems \<longleftrightarrow>
         syms \<noteq> [] \<and> sorted syms \<and> distinct syms \<and> set syms \<subseteq> set elems"
proof
  assume "join ''-'' syms \<in> systems elems"
  then obtain S where S: "S \<noteq> {}" "S \<subseteq> set elems"
    and eq: "join ''-'' syms = join ''-'' (sorted_list_of_set S)"
    unfolding systems_subsets [OF assms(3)] by auto
  from S(2) have fin: "finite S" by (auto intro: finite_subset)
  from assms(1,2) S(2) eq have "syms = sorted_list_of_set S"
    by (rule subset_label_inject)
  with fin S show "syms \<noteq> [] \<and> sorted syms \<and> distinct syms \<and> set syms \<subseteq> set elems"
    by auto
next
  assume a: "syms \<noteq> [] \<and> sorted syms \<and> distinct syms \<and> set syms \<subseteq> set elems"
  then have "sorted_list_of_set (set syms) = syms"
    by (simp add: sorted_list_of_set_sort_remdups sorted_sort_id)
  moreover from a have "set syms \<in> {S. S \<noteq> {} \<and> S \<subseteq> set elems}" by auto
  ultimately show "join ''-'' syms \<in> systems elems"
    unfolding systems_subsets [OF assms(3)] by (metis (no_types, lifting) image_eqI)
qed

subsection \<open>What the two filters return\<close>

lemma pair_hit_iff:
  assumes "list_all plain_symbol syms" and "[] \<notin> set elems"
  shows "list_all (\<lambda>x. x \<in> set (str_split CHR ''-'' (join ''-'' syms))) elems \<longleftrightarrow>
         set elems \<subseteq> set syms"
proof (cases "syms = []")
  case True
  have "str_split CHR ''-'' (join ''-'' syms) = [[]]"
    by (simp add: True)
  moreover from assms(2) have "(\<forall>x \<in> set elems. x = []) \<longleftrightarrow> elems = []"
    by (cases elems) auto
  ultimately show ?thesis
    by (simp add: list_all_iff True)
next
  case False
  from assms(1) have "\<forall>x \<in> set syms. CHR ''-'' \<notin> set x"
    by (simp add: list_all_iff plain_symbol_def)
  with False have "str_split CHR ''-'' (join ''-'' syms) = syms"
    by (rule str_split_join)
  then show ?thesis by (auto simp: list_all_iff)
qed

lemma pair_filter_exact:
  assumes "load_oqmd p parse reduce raws = Inr oqmd_data"
    and "\<forall>e \<in> set oqmd_data. list_all plain_symbol (symbols (comp_obj e))"
    and "[] \<notin> set elems"
  shows "get_test_data_pair oqmd_data elems =
           filter (\<lambda>e. set elems \<subseteq> set (symbols (comp_obj e))) oqmd_data"
proof -
  have "list_all (\<lambda>x. x \<in> set (str_split CHR ''-'' (system e))) elems \<longleftrightarrow>
      set elems \<subseteq> set (symbols (comp_obj e))" if "e \<in> set oqmd_data" for e
    using pair_hit_iff [of "symbols (comp_obj e)" elems] assms(2,3) that
      load_oqmd_system [OF assms(1) that]
    by simp
  then show ?thesis
    unfolding get_test_data_pair_def by (intro filter_cong refl)
qed

lemma system_filter_exact:
  assumes "load_oqmd p parse reduce raws = Inr oqmd_data"
    and "\<forall>e \<in> set oqmd_data. list_all plain_symbol (symbols (comp_obj e))"
    and "list_all plain_symbol elems" and "elems \<noteq> []"
  shows "get_test_data_system oqmd_data elems =
           filter (\<lambda>e. symbols (comp_obj e) \<noteq> [] \<and> sorted (symbols (comp_obj e)) \<and>
                       distinct (symbols (comp_obj e)) \<and>
                       set (symbols (comp_obj e)) \<subseteq> set elems) oqmd_data"
proof -
  have "system e \<in> systems elems \<longleftrightarrow>
      symbols (comp_obj e) \<noteq> [] \<and> sorted (symbols (comp_obj e)) \<and>
      distinct (symbols (comp_obj e)) \<and> set (symbols (comp_obj e)) \<subseteq> set elems"
    if "e \<in> set oqmd_data" for e
    using system_hit_iff [of "symbols (comp_obj e)" elems] assms(2-4) that
      load_oqmd_system [OF assms(1) that]
    by simp
  then show ?thesis
    unfolding get_test_data_system_def by (intro filter_cong refl)
qed

subsection \<open>Writing and reading the file\<close>





subsection \<open>The example frames\<close>

lemma example_frame_loaded:
  "load_oqmd str_to_int parse_formula reduced_formula example_raws = Inr example_frame"
  by code_simp

lemma unsorted_frame_loaded:
  "load_oqmd str_to_int parse_formula reduced_formula unsorted_raws = Inr unsorted_frame"
  by code_simp

lemma scenario_frame_loaded:
  "load_oqmd str_to_int parse_formula reduced_formula scenario_raws = Inr scenario_frame"
  by code_simp

section \<open>The claims\<close>

text \<open>
  C1. The claim is that the filter of cell 21 returns every row whose elements are all
  in the target. The labels that cell 21 builds are sorted, those of cell 15 are not
  (C3). On the first scenario of the spec (rows \<^verbatim>\<open>NaCl\<close>, \<^verbatim>\<open>Na2O\<close>, \<^verbatim>\<open>KCl\<close>, target Na, Cl)
  the row \<^verbatim>\<open>NaCl\<close> has the label \<^verbatim>\<open>Na-Cl\<close>, cell 21 looks for \<^verbatim>\<open>Cl-Na\<close>, and the test set
  is empty. On \<open>unsorted_raws\<close> and the target Fe, O the row \<^verbatim>\<open>O4Fe3\<close>, whose elements
  are Fe and O, is not returned. What the filter does return is stated by
  \<open>system_filter_exact\<close>: the rows whose symbols are in the target and are enumerated in
  ascending order.
\<close>

theorem system_filter_misses_unsorted_row:
  "load_oqmd str_to_int parse_formula reduced_formula scenario_raws = Inr scenario_frame \<and>
   systems [''Na'', ''Cl''] = {''Na'', ''Cl'', ''Cl-Na''} \<and>
   map system scenario_frame = [''Na-O'', ''Na-Cl'', ''K-Cl''] \<and>
   set (symbols (comp_obj (scenario_frame ! 1))) \<subseteq> set [''Na'', ''Cl''] \<and>
   get_test_data_system scenario_frame [''Na'', ''Cl''] = [] \<and>
   load_oqmd str_to_int parse_formula reduced_formula unsorted_raws = Inr unsorted_frame \<and>
   set (symbols (comp_obj (unsorted_frame ! 1))) \<subseteq> set [''Fe'', ''O''] \<and>
   get_test_data_system unsorted_frame [''Fe'', ''O''] = [unsorted_frame ! 0]"
proof -
  have a: "systems [''Na'', ''Cl''] = {''Na'', ''Cl'', ''Cl-Na''}"
    by code_simp
  have b: "map system scenario_frame = [''Na-O'', ''Na-Cl'', ''K-Cl'']"
    by code_simp
  have c: "set (symbols (comp_obj (scenario_frame ! 1))) \<subseteq> set [''Na'', ''Cl'']"
    by code_simp
  have d: "get_test_data_system scenario_frame [''Na'', ''Cl''] = []"
    by code_simp
  have e: "set (symbols (comp_obj (unsorted_frame ! 1))) \<subseteq> set [''Fe'', ''O'']"
    by code_simp
  have f: "get_test_data_system unsorted_frame [''Fe'', ''O''] = [unsorted_frame ! 0]"
    by code_simp
  from scenario_frame_loaded a b c d unsorted_frame_loaded e f show ?thesis
    by (intro conjI)
qed

text \<open>
  C2. The pairwise filter, for a target \<^verbatim>\<open>elems\<close> of non-empty strings, on a cleaned frame
  whose compositions have element symbols as symbols: the test set is made of exactly
  the rows of the frame whose composition has every element of the target. Every row
  returned has them all, and every row that has them all is returned.
\<close>

theorem pairwise_filter_sound_complete:
  assumes "load_oqmd p parse reduce raws = Inr oqmd_data"
    and "\<forall>e \<in> set oqmd_data. list_all plain_symbol (symbols (comp_obj e))"
    and "[] \<notin> set elems"
  shows "get_test_data_pair oqmd_data elems =
           filter (\<lambda>e. set elems \<subseteq> set (symbols (comp_obj e))) oqmd_data \<and>
         (\<forall>e \<in> set (get_test_data_pair oqmd_data elems).
            e \<in> set oqmd_data \<and> set elems \<subseteq> set (symbols (comp_obj e))) \<and>
         (\<forall>e \<in> set oqmd_data. set elems \<subseteq> set (symbols (comp_obj e)) \<longrightarrow>
            e \<in> set (get_test_data_pair oqmd_data elems))"
  unfolding pair_filter_exact [OF assms] by simp

theorem pairwise_filter_sound_complete_witness:
  "load_oqmd str_to_int parse_formula reduced_formula example_raws = Inr example_frame \<and>
   list_all (\<lambda>e. list_all plain_symbol (symbols (comp_obj e))) example_frame \<and>
   [] \<notin> set [''Na''] \<and>
   get_test_data_pair example_frame [''Na''] = [example_frame ! 1, example_frame ! 2] \<and>
   set [''Na''] \<subseteq> set (symbols (comp_obj (example_frame ! 1))) \<and>
   set [''Na''] \<subseteq> set (symbols (comp_obj (example_frame ! 2))) \<and>
   \<not> set [''Na''] \<subseteq> set (symbols (comp_obj (example_frame ! 0))) \<and>
   \<not> set [''Na''] \<subseteq> set (symbols (comp_obj (example_frame ! 3)))"
proof -
  have plain: "list_all (\<lambda>e. list_all plain_symbol (symbols (comp_obj e))) example_frame"
    by code_simp
  then have plain': "\<forall>e \<in> set example_frame. list_all plain_symbol (symbols (comp_obj e))"
    by (simp only: list_all_iff)
  have target: "[] \<notin> set [''Na'']"
    by simp
  from pairwise_filter_sound_complete [OF example_frame_loaded plain' target]
  have "get_test_data_pair example_frame [''Na''] =
      filter (\<lambda>e. set [''Na''] \<subseteq> set (symbols (comp_obj e))) example_frame"
    by (rule conjunct1)
  also have "\<dots> = [example_frame ! 1, example_frame ! 2]"
    by code_simp
  finally have test: "get_test_data_pair example_frame [''Na''] = [example_frame ! 1, example_frame ! 2]" .
  have a: "set [''Na''] \<subseteq> set (symbols (comp_obj (example_frame ! 1)))"
    by code_simp
  have b: "set [''Na''] \<subseteq> set (symbols (comp_obj (example_frame ! 2)))"
    by code_simp
  have c: "\<not> set [''Na''] \<subseteq> set (symbols (comp_obj (example_frame ! 0)))"
    by code_simp
  have d: "\<not> set [''Na''] \<subseteq> set (symbols (comp_obj (example_frame ! 3)))"
    by code_simp
  from example_frame_loaded plain target test a b c d show ?thesis
    by (intro conjI)
qed

text \<open>
  C3. The claim is that the label of a row is made of its symbols in ascending order.
  Cell 15 joins the symbols in the order of the composition and does not sort: on
  \<open>unsorted_raws\<close> the rows \<^verbatim>\<open>Fe2O3\<close> and \<^verbatim>\<open>O4Fe3\<close> have the same elements and get the
  labels \<^verbatim>\<open>Fe-O\<close> and \<^verbatim>\<open>O-Fe\<close>, where the sorted label of both is \<^verbatim>\<open>Fe-O\<close>.
\<close>

theorem system_label_keeps_formula_order:
  "load_oqmd str_to_int parse_formula reduced_formula unsorted_raws = Inr unsorted_frame \<and>
   map system unsorted_frame = [''Fe-O'', ''O-Fe'', ''Cl-K''] \<and>
   map (\<lambda>e. join ''-'' (sort (remdups (symbols (comp_obj e))))) unsorted_frame =
     [''Fe-O'', ''Fe-O'', ''Cl-K''] \<and>
   set (symbols (comp_obj (unsorted_frame ! 0))) = set (symbols (comp_obj (unsorted_frame ! 1))) \<and>
   system (unsorted_frame ! 0) \<noteq> system (unsorted_frame ! 1) \<and>
   system_label [(''O'', 4), (''Fe'', 3)] = ''O-Fe''"
proof -
  have a: "map system unsorted_frame = [''Fe-O'', ''O-Fe'', ''Cl-K'']"
    by code_simp
  have b: "map (\<lambda>e. join ''-'' (sort (remdups (symbols (comp_obj e))))) unsorted_frame =
      [''Fe-O'', ''Fe-O'', ''Cl-K'']"
    by code_simp
  have c: "set (symbols (comp_obj (unsorted_frame ! 0))) = set (symbols (comp_obj (unsorted_frame ! 1)))"
    by code_simp
  have d: "system (unsorted_frame ! 0) \<noteq> system (unsorted_frame ! 1)"
    by code_simp
  have e: "system_label [(''O'', 4), (''Fe'', 3)] = ''O-Fe''"
    by code_simp
  from unsorted_frame_loaded a b c d e show ?thesis
    by (intro conjI)
qed

text \<open>
  C4. Sort ascending by \<^verbatim>\<open>delta_e\<close>, then drop the later rows of every reduced formula:
  the result has at most one row per reduced formula, every reduced formula of the frame
  keeps a row, and the row kept is a row of the frame whose \<^verbatim>\<open>delta_e\<close> is least among
  the rows of its formula. This holds for every ascending arrangement \<open>ys\<close> of the frame
  \<open>df\<close>, whatever the sort does with equal keys. For the cleaned frame: no two rows
  have the same reduced formula, and for every row of the frame read that passes the
  range query the cleaned frame has a row of the same reduced formula whose \<^verbatim>\<open>delta_e\<close>
  is not greater.
\<close>

theorem lowest_energy_per_formula:
  "(mset ys = mset df \<and> sorted (map (\<lambda>r. sort_rank (delta_e r)) ys) \<longrightarrow>
      distinct (map pretty_comp (drop_duplicates ys)) \<and>
      pretty_comp ` set (drop_duplicates ys) = pretty_comp ` set df \<and>
      (\<forall>e \<in> set (drop_duplicates ys). e \<in> set df \<and>
         (\<forall>e' \<in> set df. pretty_comp e' = pretty_comp e \<longrightarrow>
            sort_rank (delta_e e) \<le> sort_rank (delta_e e') \<and>
            (\<forall>a b. delta_e e = Fin a \<and> delta_e e' = Fin b \<longrightarrow> a \<le> b)))) \<and>
   (load_oqmd p parse reduce raws = Inr oqmd_data \<longrightarrow>
      distinct (map pretty_comp oqmd_data) \<and>
      (\<forall>i < length raws. in_range (to_numeric p (delta_e_cell (raws ! i))) \<longrightarrow>
         (\<exists>e \<in> set oqmd_data. \<exists>a b.
            pretty_comp e = reduce (the (parse (comp_cell (raws ! i)))) \<and>
            delta_e e = Fin a \<and> to_numeric p (delta_e_cell (raws ! i)) = Fin b \<and> a \<le> b)))"
proof (intro conjI impI allI)
  assume "mset ys = mset df \<and> sorted (map (\<lambda>r. sort_rank (delta_e r)) ys)"
  then have perm: "mset ys = mset df" and asc: "sorted (map (\<lambda>r. sort_rank (delta_e r)) ys)"
    by simp_all
  from perm have sets: "set ys = set df" by (rule mset_eq_setD)
  have sub: "set (drop_duplicates ys) \<subseteq> set df"
    using drop_dups_subset [of "[]" ys] sets by (simp add: drop_duplicates_def)
  show "distinct (map pretty_comp (drop_duplicates ys))"
    by (simp add: drop_duplicates_def drop_dups_distinct)
  have "pretty_comp ` set df \<subseteq> pretty_comp ` set (drop_duplicates ys)"
    using drop_dups_complete [of _ ys "[]"] sets by (auto simp: drop_duplicates_def)
  with sub show "pretty_comp ` set (drop_duplicates ys) = pretty_comp ` set df"
    by auto
  have least: "sort_rank (delta_e e) \<le> sort_rank (delta_e e')"
    if "e \<in> set (drop_duplicates ys)" "e' \<in> set df" "pretty_comp e' = pretty_comp e"
    for e e'
    using drop_dups_least [OF asc, of e "[]" e'] that sets
    by (simp add: drop_duplicates_def)
  have "a \<le> b"
    if "e \<in> set (drop_duplicates ys)" "e' \<in> set df" "pretty_comp e' = pretty_comp e"
      "delta_e e = Fin a" "delta_e e' = Fin b"
    for e e' a b
    using least [OF that(1-3)] that(4,5) by simp
  with sub least
  show "\<forall>e \<in> set (drop_duplicates ys). e \<in> set df \<and>
         (\<forall>e' \<in> set df. pretty_comp e' = pretty_comp e \<longrightarrow>
            sort_rank (delta_e e) \<le> sort_rank (delta_e e') \<and>
            (\<forall>a b. delta_e e = Fin a \<and> delta_e e' = Fin b \<longrightarrow> a \<le> b))"
    by blast
next
  assume "load_oqmd p parse reduce raws = Inr oqmd_data"
  then show "distinct (map pretty_comp oqmd_data)"
    by (rule load_oqmd_distinct_pretty)
next
  fix i
  assume load: "load_oqmd p parse reduce raws = Inr oqmd_data"
    and i: "i < length raws" and rng: "in_range (to_numeric p (delta_e_cell (raws ! i)))"
  from load_oqmd_lowest [OF load i rng] obtain e where e: "e \<in> set oqmd_data"
    and same: "pretty_comp e = reduce (the (parse (comp_cell (raws ! i))))"
    and le: "sort_rank (delta_e e) \<le> sort_rank (to_numeric p (delta_e_cell (raws ! i)))"
    by blast
  from load_oqmd_rows [OF load e] obtain a where a: "delta_e e = Fin a"
    by (auto simp: cleaned_from_def in_range_Fin)
  from rng obtain b where b: "to_numeric p (delta_e_cell (raws ! i)) = Fin b"
    by (auto simp: in_range_Fin)
  from le a b have "a \<le> b" by simp
  with e same a b
  show "\<exists>e \<in> set oqmd_data. \<exists>a b.
      pretty_comp e = reduce (the (parse (comp_cell (raws ! i)))) \<and>
      delta_e e = Fin a \<and> to_numeric p (delta_e_cell (raws ! i)) = Fin b \<and> a \<le> b"
    by blast
qed

theorem lowest_energy_per_formula_witness:
  "mset (sort_values example_rows) = mset example_rows \<and>
   sorted (map (\<lambda>r. sort_rank (delta_e r)) (sort_values example_rows)) \<and>
   map idx (drop_duplicates (sort_values example_rows)) = [1, 3, 2, 4] \<and>
   distinct (map pretty_comp (drop_duplicates (sort_values example_rows))) \<and>
   pretty_comp ` set (drop_duplicates (sort_values example_rows)) = pretty_comp ` set example_rows \<and>
   pretty_comp (example_rows ! 0) = pretty_comp (example_rows ! 1) \<and>
   sort_rank (delta_e (example_rows ! 1)) \<le> sort_rank (delta_e (example_rows ! 0)) \<and>
   load_oqmd str_to_int parse_formula reduced_formula example_raws = Inr example_frame \<and>
   distinct (map pretty_comp example_frame) \<and>
   in_range (to_numeric str_to_int (delta_e_cell (example_raws ! 0))) \<and>
   (\<exists>e \<in> set example_frame. \<exists>a b.
      pretty_comp e = reduced_formula (the (parse_formula (comp_cell (example_raws ! 0)))) \<and>
      delta_e e = Fin a \<and> to_numeric str_to_int (delta_e_cell (example_raws ! 0)) = Fin b \<and>
      a \<le> b)"
proof -
  have a: "mset (sort_values example_rows) = mset example_rows"
    by (rule sort_values_mset)
  have b: "sorted (map (\<lambda>r. sort_rank (delta_e r)) (sort_values example_rows))"
    by (rule sort_values_sorted)
  note T = lowest_energy_per_formula [of "sort_values example_rows" example_rows
      str_to_int parse_formula reduced_formula example_raws example_frame]
  from T a b have T1: "distinct (map pretty_comp (drop_duplicates (sort_values example_rows)))"
    and T2: "pretty_comp ` set (drop_duplicates (sort_values example_rows)) =
      pretty_comp ` set example_rows"
    and T3: "\<forall>e \<in> set (drop_duplicates (sort_values example_rows)). e \<in> set example_rows \<and>
         (\<forall>e' \<in> set example_rows. pretty_comp e' = pretty_comp e \<longrightarrow>
            sort_rank (delta_e e) \<le> sort_rank (delta_e e') \<and>
            (\<forall>a b. delta_e e = Fin a \<and> delta_e e' = Fin b \<longrightarrow> a \<le> b))"
    by blast+
  have kept: "drop_duplicates (sort_values example_rows) =
      [example_rows ! 1, example_rows ! 3, example_rows ! 2, example_rows ! 4]"
    by code_simp
  have c: "map idx (drop_duplicates (sort_values example_rows)) = [1, 3, 2, 4]"
    unfolding kept by (simp add: example_rows_def)
  have same: "pretty_comp (example_rows ! 0) = pretty_comp (example_rows ! 1)"
    by (simp add: example_rows_def)
  have "example_rows ! 1 \<in> set (drop_duplicates (sort_values example_rows))"
    unfolding kept by simp
  moreover have "example_rows ! 0 \<in> set example_rows"
    by (simp add: example_rows_def)
  ultimately have d: "sort_rank (delta_e (example_rows ! 1)) \<le> sort_rank (delta_e (example_rows ! 0))"
    using T3 same by blast
  have len: "0 < length example_raws"
    by (simp add: example_raws_def)
  have rng: "in_range (to_numeric str_to_int (delta_e_cell (example_raws ! 0)))"
    by code_simp
  from T example_frame_loaded have T4: "distinct (map pretty_comp example_frame)"
    by blast
  from T example_frame_loaded len rng
  have T5: "\<exists>e \<in> set example_frame. \<exists>a b.
      pretty_comp e = reduced_formula (the (parse_formula (comp_cell (example_raws ! 0)))) \<and>
      delta_e e = Fin a \<and> to_numeric str_to_int (delta_e_cell (example_raws ! 0)) = Fin b \<and>
      a \<le> b"
    by blast
  from a b c T1 T2 same d example_frame_loaded T4 rng T5 show ?thesis
    by (intro conjI)
qed

text \<open>
  C5. For the test set of either filter, the train set exists and is made of the rows
  of the cleaned frame whose row label is not a row label of the test set, each once.
  Train set and test set have no row in common, and together they hold every row of the
  cleaned frame exactly once. The rows of the train set come in ascending order of the
  labels; when the test set is empty the train set is the cleaned frame as it is.
\<close>

theorem train_test_partition:
  assumes "load_oqmd p parse reduce raws = Inr oqmd_data"
    and "test_set = get_test_data_system oqmd_data elems \<or>
         test_set = get_test_data_pair oqmd_data elems"
  shows "\<exists>train. train_set oqmd_data test_set = Some train \<and>
           train = (if test_set = [] then oqmd_data
                    else filter (\<lambda>e. idx e \<notin> set (map idx test_set))
                           (sort_key idx oqmd_data)) \<and>
           mset train = mset (filter (\<lambda>e. idx e \<notin> set (map idx test_set)) oqmd_data) \<and>
           set train \<inter> set test_set = {} \<and> set train \<union> set test_set = set oqmd_data \<and>
           mset train + mset test_set = mset oqmd_data"
proof -
  from assms(1) have d: "distinct (map idx oqmd_data)"
    by (rule load_oqmd_distinct_idx)
  from assms(2) obtain P where "test_set = filter P oqmd_data"
    by (auto simp: get_test_data_system_def get_test_data_pair_def)
  with d show ?thesis by (rule train_test_split)
qed

theorem train_test_partition_witness:
  "load_oqmd str_to_int parse_formula reduced_formula example_raws = Inr example_frame \<and>
   map idx example_frame = [1, 3, 2, 4] \<and>
   get_test_data_system example_frame [''Fe'', ''O''] = [example_frame ! 0] \<and>
   train_set example_frame (get_test_data_system example_frame [''Fe'', ''O'']) =
     Some [example_frame ! 2, example_frame ! 1, example_frame ! 3] \<and>
   get_test_data_pair example_frame [''Na''] = [example_frame ! 1, example_frame ! 2] \<and>
   train_set example_frame (get_test_data_pair example_frame [''Na'']) =
     Some [example_frame ! 0, example_frame ! 3] \<and>
   get_test_data_system example_frame [''Xe'', ''Kr''] = [] \<and>
   train_set example_frame (get_test_data_system example_frame [''Xe'', ''Kr'']) =
     Some example_frame"
proof -
  let ?s = "get_test_data_system example_frame [''Fe'', ''O'']"
  let ?p = "get_test_data_pair example_frame [''Na'']"
  let ?x = "get_test_data_system example_frame [''Xe'', ''Kr'']"
  have labels: "map idx example_frame = [1, 3, 2, 4]"
    by code_simp
  have s: "?s = [example_frame ! 0]"
    by code_simp
  have p: "?p = [example_frame ! 1, example_frame ! 2]"
    by code_simp
  have x: "?x = []"
    by code_simp
  have fs: "(if ?s = [] then example_frame
      else filter (\<lambda>e. idx e \<notin> set (map idx ?s)) (sort_key idx example_frame)) =
      [example_frame ! 2, example_frame ! 1, example_frame ! 3]"
    by code_simp
  have fp: "(if ?p = [] then example_frame
      else filter (\<lambda>e. idx e \<notin> set (map idx ?p)) (sort_key idx example_frame)) =
      [example_frame ! 0, example_frame ! 3]"
    by code_simp
  have fx: "(if ?x = [] then example_frame
      else filter (\<lambda>e. idx e \<notin> set (map idx ?x)) (sort_key idx example_frame)) =
      example_frame"
    by (simp add: x)
  from train_test_partition [OF example_frame_loaded, where test_set = ?s and elems = "[''Fe'', ''O'']"]
  obtain ts where "train_set example_frame ?s = Some ts"
    and "ts = (if ?s = [] then example_frame
      else filter (\<lambda>e. idx e \<notin> set (map idx ?s)) (sort_key idx example_frame))"
    by blast
  with fs have ts: "train_set example_frame ?s =
      Some [example_frame ! 2, example_frame ! 1, example_frame ! 3]"
    by (simp only:)
  from train_test_partition [OF example_frame_loaded, where test_set = ?p and elems = "[''Na'']"]
  obtain tp where "train_set example_frame ?p = Some tp"
    and "tp = (if ?p = [] then example_frame
      else filter (\<lambda>e. idx e \<notin> set (map idx ?p)) (sort_key idx example_frame))"
    by blast
  with fp have tp: "train_set example_frame ?p = Some [example_frame ! 0, example_frame ! 3]"
    by (simp only:)
  from train_test_partition [OF example_frame_loaded, where test_set = ?x and elems = "[''Xe'', ''Kr'']"]
  obtain tx where "train_set example_frame ?x = Some tx"
    and "tx = (if ?x = [] then example_frame
      else filter (\<lambda>e. idx e \<notin> set (map idx ?x)) (sort_key idx example_frame))"
    by blast
  with fx have tx: "train_set example_frame ?x = Some example_frame"
    by (simp only:)
  from example_frame_loaded labels s ts p tp x tx show ?thesis
    by (intro conjI)
qed

text \<open>
  C6. Every row of the cleaned frame has a \<^verbatim>\<open>delta_e\<close> strictly between -20 and 5. A row
  of the frame read whose \<^verbatim>\<open>delta_e\<close> is not in this open interval is not in the cleaned
  frame, and it is dropped without an error: the only failure of the load is a
  composition that does not parse, of a row whose \<^verbatim>\<open>delta_e\<close> is in the interval.
\<close>

theorem delta_e_open_interval:
  "(load_oqmd p parse reduce raws = Inr oqmd_data \<longrightarrow>
      (\<forall>e \<in> set oqmd_data. \<exists>a. delta_e e = Fin a \<and> - 20 < a \<and> a < 5) \<and>
      (\<forall>i < length raws. \<not> in_range (to_numeric p (delta_e_cell (raws ! i))) \<longrightarrow>
           i \<notin> idx ` set oqmd_data)) \<and>
   (load_oqmd p parse reduce raws = Inl err \<longrightarrow>
      (\<exists>i < length raws. in_range (to_numeric p (delta_e_cell (raws ! i))) \<and>
           parse (comp_cell (raws ! i)) = None))"
proof (intro conjI impI ballI allI)
  fix e
  assume "load_oqmd p parse reduce raws = Inr oqmd_data" and "e \<in> set oqmd_data"
  then have "in_range (delta_e e)"
    using load_oqmd_rows by (auto simp: cleaned_from_def)
  then show "\<exists>a. delta_e e = Fin a \<and> - 20 < a \<and> a < 5"
    by (simp add: in_range_Fin)
next
  fix i
  assume L: "load_oqmd p parse reduce raws = Inr oqmd_data"
    and out: "\<not> in_range (to_numeric p (delta_e_cell (raws ! i)))"
  show "i \<notin> idx ` set oqmd_data"
  proof
    assume "i \<in> idx ` set oqmd_data"
    then obtain e where e: "e \<in> set oqmd_data" and i: "i = idx e" by auto
    from load_oqmd_rows [OF L e] have "in_range (to_numeric p (delta_e_cell (raws ! idx e)))"
      by (auto simp: cleaned_from_def from_raw_def)
    with out i show False by simp
  qed
next
  assume "load_oqmd p parse reduce raws = Inl err"
  then obtain r where r: "r \<in> set (query_delta_e (read_frame p raws))"
    and bad: "parse (comp r) = None"
    by (auto simp: load_oqmd_Inl)
  from r have "from_raw p raws r" and "in_range (delta_e r)"
    by (auto simp: query_delta_e_def dest: read_frame_from_raw)
  with bad show "\<exists>i < length raws. in_range (to_numeric p (delta_e_cell (raws ! i))) \<and>
      parse (comp_cell (raws ! i)) = None"
    by (auto simp: from_raw_def intro!: exI [of _ "idx r"])
qed

theorem delta_e_open_interval_witness:
  "load_oqmd str_to_int parse_formula reduced_formula example_raws = Inr example_frame \<and>
   (\<exists>a. delta_e (example_frame ! 0) = Fin a \<and> - 20 < a \<and> a < 5) \<and>
   \<not> in_range (to_numeric str_to_int (delta_e_cell (example_raws ! 6))) \<and>
   6 \<notin> idx ` set example_frame \<and>
   parse_formula (comp_cell (example_raws ! 7)) = None"
proof -
  note T = delta_e_open_interval [of str_to_int parse_formula reduced_formula example_raws
      example_frame CompositionError]
  have first: "example_frame ! 0 \<in> set example_frame"
    by (simp add: example_frame_def)
  have out: "\<not> in_range (to_numeric str_to_int (delta_e_cell (example_raws ! 6)))"
    by (simp add: example_raws_def to_numeric_def in_range_def f64_gt_def)
  have len: "6 < length example_raws"
    by (simp add: example_raws_def)
  have bad: "parse_formula (comp_cell (example_raws ! 7)) = None"
    by code_simp
  from T example_frame_loaded first out len bad show ?thesis by blast
qed




text \<open>
  C8. For a target that is not empty, the labels that cell 21 collects from the product
  of the target with itself are the labels of the non-empty subsets of the target, and
  they are the labels that the direct enumeration of the non-empty sub-lists gives. The
  filter returns the same rows with either enumeration, on every frame.
\<close>

theorem product_enumeration_is_powerset:
  assumes "elems \<noteq> []"
  shows "systems elems = powerset_systems elems \<and>
         systems elems =
           (\<lambda>S. join ''-'' (sorted_list_of_set S)) ` {S. S \<noteq> {} \<and> S \<subseteq> set elems} \<and>
         get_test_data_system oqmd_data elems = get_test_data_powerset oqmd_data elems"
proof -
  have "systems elems = powerset_systems elems"
    by (simp only: systems_subsets [OF assms] powerset_systems_subsets)
  moreover from this have "get_test_data_system oqmd_data elems = get_test_data_powerset oqmd_data elems"
    by (simp only: get_test_data_system_def get_test_data_powerset_def)
  ultimately show ?thesis
    using systems_subsets [OF assms] by (intro conjI)
qed

theorem product_enumeration_is_powerset_witness:
  "[''Na'', ''Fe'', ''O''] \<noteq> [] \<and>
   systems [''Na'', ''Fe'', ''O''] = powerset_systems [''Na'', ''Fe'', ''O''] \<and>
   powerset_systems [''Na'', ''Fe'', ''O''] =
     {''Fe-Na-O'', ''Fe-Na'', ''Na-O'', ''Fe-O'', ''Na'', ''Fe'', ''O''} \<and>
   get_test_data_system example_frame [''Na'', ''Fe'', ''O''] =
     get_test_data_powerset example_frame [''Na'', ''Fe'', ''O''] \<and>
   get_test_data_powerset example_frame [''Na'', ''Fe'', ''O''] =
     [example_frame ! 0, example_frame ! 2]"
proof -
  have ne: "[''Na'', ''Fe'', ''O''] \<noteq> []"
    by simp
  note T = product_enumeration_is_powerset [OF ne, of example_frame]
  have labels: "powerset_systems [''Na'', ''Fe'', ''O''] =
      {''Fe-Na-O'', ''Fe-Na'', ''Na-O'', ''Fe-O'', ''Na'', ''Fe'', ''O''}"
    by code_simp
  have rows: "get_test_data_powerset example_frame [''Na'', ''Fe'', ''O''] =
      [example_frame ! 0, example_frame ! 2]"
    by code_simp
  from T ne labels rows show ?thesis
    by (intro conjI) (simp_all only: simp_thms)
qed

text \<open>
  C9. A target with an element \<open>x\<close> that no row of the cleaned frame has: the filters
  return (the query of cell 21 has at least one label to compare with), the label of a
  subset of the target that holds \<open>x\<close> matches no row, and the pairwise test set is
  empty. When no element of the target is in the frame, the test set of cell 21 is empty
  too. The train set of an empty test set exists and is the cleaned frame itself, with
  its rows in their own order.
\<close>

theorem absent_target_elements:
  assumes "load_oqmd p parse reduce raws = Inr oqmd_data"
    and "\<forall>e \<in> set oqmd_data. list_all plain_symbol (symbols (comp_obj e))"
    and "elems \<noteq> []" and "list_all plain_symbol elems"
    and "x \<in> set elems" and "\<forall>e \<in> set oqmd_data. x \<notin> set (symbols (comp_obj e))"
  shows "systems elems \<noteq> {} \<and>
         (\<forall>S. S \<subseteq> set elems \<and> x \<in> S \<longrightarrow>
            filter (\<lambda>e. system e = join ''-'' (sorted_list_of_set S)) oqmd_data = []) \<and>
         get_test_data_pair oqmd_data elems = [] \<and>
         train_set oqmd_data (get_test_data_pair oqmd_data elems) = Some oqmd_data \<and>
         ((\<forall>y \<in> set elems. \<forall>e \<in> set oqmd_data. y \<notin> set (symbols (comp_obj e))) \<longrightarrow>
            get_test_data_system oqmd_data elems = [] \<and>
            train_set oqmd_data (get_test_data_system oqmd_data elems) = Some oqmd_data)"
proof -
  from assms(1) have "distinct (map idx oqmd_data)"
    by (rule load_oqmd_distinct_idx)
  then have train: "train_set oqmd_data [] = Some oqmd_data"
    by (rule train_set_of_empty_test)
  from assms(4) have "[] \<notin> set elems"
    by (auto simp: list_all_iff plain_symbol_def)
  from pair_filter_exact [OF assms(1,2) this] assms(5,6)
  have pair: "get_test_data_pair oqmd_data elems = []"
    by (auto simp: filter_empty_conv)
  show ?thesis
  proof (intro conjI allI impI)
  from assms(3) show "systems elems \<noteq> {}"
    by (rule systems_not_empty)
next
  fix S
  assume S: "S \<subseteq> set elems \<and> x \<in> S"
  then have fin: "finite S" by (auto intro: finite_subset)
  have "system e \<noteq> join ''-'' (sorted_list_of_set S)" if e: "e \<in> set oqmd_data" for e
  proof
    assume "system e = join ''-'' (sorted_list_of_set S)"
    with load_oqmd_system [OF assms(1) e]
    have "join ''-'' (symbols (comp_obj e)) = join ''-'' (sorted_list_of_set S)"
      by simp
    with assms(2,4) S e have "symbols (comp_obj e) = sorted_list_of_set S"
      by (intro subset_label_inject [of _ elems]) auto
    with fin S have "x \<in> set (symbols (comp_obj e))" by simp
    with assms(6) e show False by blast
  qed
  then show "filter (\<lambda>e. system e = join ''-'' (sorted_list_of_set S)) oqmd_data = []"
    by (simp add: filter_empty_conv)
next
  show "get_test_data_pair oqmd_data elems = []"
    by (rule pair)
next
  show "train_set oqmd_data (get_test_data_pair oqmd_data elems) = Some oqmd_data"
    by (simp only: pair train)
next
  assume none: "\<forall>y \<in> set elems. \<forall>e \<in> set oqmd_data. y \<notin> set (symbols (comp_obj e))"
  have "\<not> (symbols (comp_obj e) \<noteq> [] \<and> set (symbols (comp_obj e)) \<subseteq> set elems)"
    if e: "e \<in> set oqmd_data" for e
  proof
    assume a: "symbols (comp_obj e) \<noteq> [] \<and> set (symbols (comp_obj e)) \<subseteq> set elems"
    then have "hd (symbols (comp_obj e)) \<in> set (symbols (comp_obj e))" by simp
    moreover from this a have "hd (symbols (comp_obj e)) \<in> set elems" by blast
    ultimately show False using none e by blast
  qed
  then have sys: "get_test_data_system oqmd_data elems = []"
    unfolding system_filter_exact [OF assms(1,2,4,3)]
    by (simp add: filter_empty_conv)
  then show "get_test_data_system oqmd_data elems = []" .
  from sys train
  show "train_set oqmd_data (get_test_data_system oqmd_data elems) = Some oqmd_data"
    by (simp only:)
  qed
qed

theorem absent_target_elements_witness:
  "load_oqmd str_to_int parse_formula reduced_formula example_raws = Inr example_frame \<and>
   list_all (\<lambda>e. list_all plain_symbol (symbols (comp_obj e))) example_frame \<and>
   list_all plain_symbol [''Xe'', ''Kr''] \<and>
   list_all (\<lambda>e. ''Xe'' \<notin> set (symbols (comp_obj e)) \<and> ''Kr'' \<notin> set (symbols (comp_obj e)))
     example_frame \<and>
   filter (\<lambda>e. system e = ''Kr-Xe'') example_frame = [] \<and>
   get_test_data_pair example_frame [''Xe'', ''Kr''] = [] \<and>
   get_test_data_system example_frame [''Xe'', ''Kr''] = [] \<and>
   train_set example_frame (get_test_data_system example_frame [''Xe'', ''Kr'']) =
     Some example_frame \<and>
   train_set example_frame (get_test_data_pair example_frame [''Xe'', ''Kr'']) =
     Some example_frame \<and>
   map idx example_frame = [1, 3, 2, 4]"
proof -
  have plain: "list_all (\<lambda>e. list_all plain_symbol (symbols (comp_obj e))) example_frame"
    by code_simp
  have target: "list_all plain_symbol [''Xe'', ''Kr'']"
    by code_simp
  have absent: "list_all (\<lambda>e. ''Xe'' \<notin> set (symbols (comp_obj e)) \<and>
      ''Kr'' \<notin> set (symbols (comp_obj e))) example_frame"
    by code_simp
  have ne: "[''Xe'', ''Kr''] \<noteq> []" and x: "''Xe'' \<in> set [''Xe'', ''Kr'']"
    by simp_all
  from plain have plain': "\<forall>e \<in> set example_frame. list_all plain_symbol (symbols (comp_obj e))"
    by (simp only: list_all_iff)
  from absent have absent_x: "\<forall>e \<in> set example_frame. ''Xe'' \<notin> set (symbols (comp_obj e))"
    and absent_all: "\<forall>y \<in> set [''Xe'', ''Kr'']. \<forall>e \<in> set example_frame.
        y \<notin> set (symbols (comp_obj e))"
    by (simp_all add: list_all_iff)
  note T = absent_target_elements [OF example_frame_loaded plain' ne target x absent_x]
  have label: "join ''-'' (sorted_list_of_set {''Xe'', ''Kr''}) = ''Kr-Xe''"
    by code_simp
  from T have "\<forall>S. S \<subseteq> set [''Xe'', ''Kr''] \<and> ''Xe'' \<in> S \<longrightarrow>
      filter (\<lambda>e. system e = join ''-'' (sorted_list_of_set S)) example_frame = []"
    by (elim conjE)
  moreover have "{''Xe'', ''Kr''} \<subseteq> set [''Xe'', ''Kr''] \<and> ''Xe'' \<in> {''Xe'', ''Kr''}"
    by simp
  ultimately have "filter (\<lambda>e. system e = join ''-'' (sorted_list_of_set {''Xe'', ''Kr''}))
      example_frame = []"
    by (elim allE impE)
  then have a: "filter (\<lambda>e. system e = ''Kr-Xe'') example_frame = []"
    by (simp only: label)
  from T have b: "get_test_data_pair example_frame [''Xe'', ''Kr''] = []"
    by simp
  from T absent_all have c: "get_test_data_system example_frame [''Xe'', ''Kr''] = []"
    by blast
  from T absent_all
  have d: "train_set example_frame (get_test_data_system example_frame [''Xe'', ''Kr'']) =
      Some example_frame"
    by blast
  from T
  have e: "train_set example_frame (get_test_data_pair example_frame [''Xe'', ''Kr'']) =
      Some example_frame"
    by blast
  have f: "map idx example_frame = [1, 3, 2, 4]"
    by code_simp
  from example_frame_loaded plain target absent a b c d e f show ?thesis
    by (intro conjI)
qed

text \<open>
  C10. Every row of the cleaned frame has a numeric \<^verbatim>\<open>delta_e\<close>. A \<^verbatim>\<open>delta_e\<close> cell that
  does not parse as a number becomes NaN; both comparisons of the range query are false
  on NaN, so the row is not in the cleaned frame. No row of the cleaned frame, of a test
  set, of a train set or of the two columns written for any of them has NaN as
  \<^verbatim>\<open>delta_e\<close>.
\<close>

theorem missing_delta_e_never_survives:
  assumes "load_oqmd p parse reduce raws = Inr oqmd_data"
  shows "(\<forall>i < length raws. \<forall>s. delta_e_cell (raws ! i) = Text s \<and> p s = None \<longrightarrow>
            to_numeric p (delta_e_cell (raws ! i)) = NaN \<and> i \<notin> idx ` set oqmd_data) \<and>
         \<not> f64_gt NaN (Fin (- 20)) \<and> \<not> f64_lt NaN (Fin 5) \<and>
         (\<forall>e \<in> set oqmd_data. delta_e e \<noteq> NaN) \<and>
         (\<forall>e \<in> set (get_test_data_system oqmd_data elems). delta_e e \<noteq> NaN) \<and>
         (\<forall>e \<in> set (get_test_data_pair oqmd_data elems). delta_e e \<noteq> NaN) \<and>
         (\<forall>test_set train. train_set oqmd_data test_set = Some train \<longrightarrow>
            (\<forall>e \<in> set train. delta_e e \<noteq> NaN)) \<and>
         (\<forall>data. set data \<subseteq> set oqmd_data \<longrightarrow> NaN \<notin> snd ` set (magpie_columns data))"
proof -
  have rows: "delta_e e \<noteq> NaN" if "e \<in> set oqmd_data" for e
    using load_oqmd_rows [OF assms that] by (auto simp: cleaned_from_def in_range_Fin)
  have coerced: "to_numeric p (delta_e_cell (raws ! i)) = NaN \<and> i \<notin> idx ` set oqmd_data"
    if "delta_e_cell (raws ! i) = Text s" "p s = None" for i s
  proof
    from that show nan: "to_numeric p (delta_e_cell (raws ! i)) = NaN"
      by (simp add: to_numeric_def)
    show "i \<notin> idx ` set oqmd_data"
    proof
      assume "i \<in> idx ` set oqmd_data"
      then obtain e where e: "e \<in> set oqmd_data" and i: "i = idx e" by auto
      from load_oqmd_rows [OF assms e] have "delta_e e = to_numeric p (delta_e_cell (raws ! i))"
        by (simp add: cleaned_from_def from_raw_def i)
      with nan rows [OF e] show False by simp
    qed
  qed
  have train: "delta_e e \<noteq> NaN"
    if "train_set oqmd_data test_set = Some train" "e \<in> set train" for test_set train e
    using loc_subset [of oqmd_data _ train] that rows by (auto simp: train_set_def)
  have magpie: "NaN \<notin> snd ` set (magpie_columns data)" if "set data \<subseteq> set oqmd_data" for data
    using that rows by (fastforce simp: magpie_columns_def)
  have cmp: "\<not> f64_gt NaN (Fin (- 20)) \<and> \<not> f64_lt NaN (Fin 5)"
    by (simp add: f64_gt_def)
  have sys: "\<forall>e \<in> set (get_test_data_system oqmd_data elems). delta_e e \<noteq> NaN"
    using rows by (simp add: get_test_data_system_def)
  have pair: "\<forall>e \<in> set (get_test_data_pair oqmd_data elems). delta_e e \<noteq> NaN"
    using rows by (simp add: get_test_data_pair_def)
  show ?thesis
  proof (intro conjI allI impI ballI)
    fix i s
    assume "delta_e_cell (raws ! i) = Text s \<and> p s = None"
    then show "to_numeric p (delta_e_cell (raws ! i)) = NaN" and "i \<notin> idx ` set oqmd_data"
      using coerced by blast+
  qed (use cmp rows sys pair train magpie in \<open>blast+\<close>)
qed

theorem missing_delta_e_never_survives_witness:
  "load_oqmd str_to_int parse_formula reduced_formula example_raws = Inr example_frame \<and>
   delta_e_cell (example_raws ! 5) = Text ''n/a'' \<and> str_to_int ''n/a'' = None \<and>
   to_numeric str_to_int (delta_e_cell (example_raws ! 5)) = NaN \<and>
   5 \<notin> idx ` set example_frame \<and>
   delta_e (example_frame ! 1) \<noteq> NaN \<and>
   NaN \<notin> snd ` set (magpie_columns (get_test_data_pair example_frame [''Na'']))"
proof -
  note T = missing_delta_e_never_survives [OF example_frame_loaded, of "[''Na'']"]
  have len: "5 < length example_raws"
    by (simp add: example_raws_def)
  have cell: "delta_e_cell (example_raws ! 5) = Text ''n/a''"
    by (simp add: example_raws_def)
  have bad: "str_to_int ''n/a'' = None"
    by code_simp
  have row: "example_frame ! 1 \<in> set example_frame"
    by (simp add: example_frame_def)
  have sub: "set (get_test_data_pair example_frame [''Na'']) \<subseteq> set example_frame"
    by (simp add: get_test_data_pair_def)
  from T len cell bad row sub example_frame_loaded show ?thesis by blast
qed

end
